theory Spec2Isabelle
  imports Main
begin

section \<open>The focused-vault manager of the VS Code extension\<close>

text \<open>
  A shallow embedding of \<^verbatim>\<open>src/extensions/vscode/src/vaults/FocusedVaultManager.ts\<close>:
  the classes \<^verbatim>\<open>FocusedVault\<close> (one WebSocket to one vault, the throttled batcher)
  and \<^verbatim>\<open>FocusedVaultManager\<close> (discovery, focus switching, two subscriber maps).

  The program is single-threaded and event driven. Every handler that the event loop can
  run (a public method call, the completion of a discovery pass, a socket event, a timer)
  is a function from the state to the new state and the list of the effects it performed,
  in order. The objects of class \<^verbatim>\<open>FocusedVault\<close> live in an explicit store: a
  superseded vault object is still reachable from its socket handlers and its timers, and
  the source never removes them.

  What is outside the program is an input or an effect. The inputs are the events of the
  event loop: what a discovery pass read, a frame or a close event of a socket, a timer
  that fires, the value that \<^verbatim>\<open>crypto.randomUUID()\<close> returned to a subscription. The
  effects are the calls the handlers make to the outside: a subscriber callback, the
  WebSocket constructor and \<^verbatim>\<open>close()\<close>, \<^verbatim>\<open>setTimeout\<close>, \<^verbatim>\<open>setInterval\<close> and
  \<^verbatim>\<open>clearInterval\<close>. Subscriber callbacks are opaque: a call is an effect, and a
  callback that throws or calls back into the manager is not modelled. An exception that
  a handler does not catch ends the handler: the state is as the handler left it and the
  exception is the last effect. \<^verbatim>\<open>createdAt\<close> is an integer and \<^verbatim>\<open>retries\<close> a natural
  number, where JavaScript has doubles; the delay of the reconnect timer is computed as
  the double arithmetic of the source computes it. Arrays are values: that
  \<^verbatim>\<open>tracesData\<close> shares the array of the initial batch with the subscribers that
  received it is not modelled.

  The WebSocket library and \<^verbatim>\<open>getConfig\<close> are not part of the sources.
  \<^verbatim>\<open>getConfig()\<close> is taken to return a configuration whose \<^verbatim>\<open>apiUrl\<close> is a string.
  Whether \<^verbatim>\<open>new WebSocket(fullWsUrl)\<close> accepts the URL that
  \<^verbatim>\<open>connectToTraceWebSocket\<close> builds from that base URL and the vault key, or throws,
  is a parameter of the model: the predicate \<open>validUrl\<close> on vault keys, the same in every
  handler.
\<close>

subsection \<open>JavaScript's insertion-ordered Map\<close>

type_synonym ('k, 'v) Map = "('k \<times> 'v) list"

text \<open>\<^verbatim>\<open>Map.prototype.set\<close>: an existing key keeps its position, a new one goes last.\<close>

fun Map_set :: "'k \<Rightarrow> 'v \<Rightarrow> ('k, 'v) Map \<Rightarrow> ('k, 'v) Map" where
  "Map_set k v [] = [(k, v)]"
| "Map_set k v (p # m) = (if fst p = k then (k, v) # m else p # Map_set k v m)"

definition Map_delete :: "'k \<Rightarrow> ('k, 'v) Map \<Rightarrow> ('k, 'v) Map" where
  "Map_delete k m = filter (\<lambda>p. fst p \<noteq> k) m"

subsection \<open>Data\<close>

type_synonym uuid = string

text \<open>A subscriber callback is opaque: it is known by its identity only.\<close>

type_synonym listener = nat

text \<open>The address of a \<^verbatim>\<open>FocusedVault\<close> object in the store.\<close>

type_synonym ref = nat

text \<open>
  \<^verbatim>\<open>VaultHistoryEntry\<close> is declared in \<^verbatim>\<open>VaultsManager\<close>; the manager reads its
  fields \<^verbatim>\<open>key\<close> and \<^verbatim>\<open>createdAt\<close> only.
\<close>

record VaultHistoryEntry =
  entry_key :: string
  createdAt :: int

text \<open>The socket opened by \<^verbatim>\<open>new WebSocket(fullWsUrl)\<close>, known by the vault key in its URL.\<close>

datatype WebSocket = WebSocket string

text \<open>A timer handle (\<^verbatim>\<open>NodeJS.Timeout\<close>); the fields that hold one are nullable.\<close>

datatype Timeout = Timeout

text \<open>
  What \<^verbatim>\<open>JSON.parse(data.toString())\<close> makes of a frame: it throws, or yields an array
  (\<^verbatim>\<open>Array.isArray\<close>), or any other value, which the handler takes for one trace.
\<close>

datatype 't frame = Unparseable | Single 't | Batch "'t list"

text \<open>
  The fields of class \<^verbatim>\<open>FocusedVault\<close>, the variable \<^verbatim>\<open>isFirst\<close> that the message
  handler closes over, and the \<^verbatim>\<open>retries\<close> that the \<^verbatim>\<open>onClose\<close> closure captured
  when \<^verbatim>\<open>switchFocusedVault\<close> built the object (its captured \<^verbatim>\<open>newFocusKey\<close> is
  \<open>key\<close>, which is never assigned again).
\<close>

record 't FocusedVault =
  key :: string
  tracesData :: "'t list"
  wsConnection :: "WebSocket option"
  pendingTraces :: "'t list"
  throttleTimeout :: "Timeout option"
  isFirst :: bool
  retries :: nat

text \<open>
  What a method of \<^verbatim>\<open>FocusedVault\<close> does to the outside: it calls one of the two
  callbacks the constructor received, or arms the throttle timer.
\<close>

datatype 't action =
    OnBatchTrace "'t list"
  | OnClose
  | SetTimeout_sendPendingTraces nat

record 't FocusedVaultManager =
  focusedVault :: "ref option"
  lastVaultFoundTimestamp :: int
  vaultKeyPollingInterval :: "Timeout option"
  focusedVaultSubscribers :: "(uuid, listener) Map"
  batchTraceSubscribers :: "(uuid, listener) Map"
  heap :: "'t FocusedVault list"

text \<open>
  The exception of \<^verbatim>\<open>new WebSocket(url)\<close> for a URL that the library rejects.
\<close>

datatype error = SyntaxError

text \<open>
  A value of \<^verbatim>\<open>Math.pow(2, retries + 1) + 100\<close> for a natural \<^verbatim>\<open>retries\<close>: a double
  that is a natural number, or \<^verbatim>\<open>Infinity\<close>.
\<close>

datatype number = Finite nat | Infinity

text \<open>
  The effects of the manager's handlers, as the outside observes them.
  \<open>SetTimeout_throttle r d\<close> arms the timer whose firing is the event \<open>ThrottleTimer r\<close>
  below; \<open>SetTimeout_reconnect k n d\<close> arms, with the delay \<open>d\<close>, the timer of the
  \<^verbatim>\<open>onClose\<close> closure that captured the key \<open>k\<close> and \<^verbatim>\<open>retries = n\<close>, whose firing is
  the event \<open>ReconnectTimer k n\<close>. \<open>Throws e\<close> is an exception that leaves the handler
  uncaught (to the caller of a public method, or as the rejection of the promise of a
  discovery pass).
\<close>

datatype 't effect =
    Call_focusedVaultSubscriber uuid listener "ref option"
  | Call_batchTraceSubscriber uuid listener "'t list"
  | New_WebSocket ref string
  | Close_WebSocket ref
  | SetTimeout_throttle ref nat
  | SetTimeout_reconnect string nat number
  | SetInterval_check nat
  | ClearInterval_check
  | Throws error

subsection \<open>Class FocusedVault\<close>

definition throttleInterval :: nat where
  "throttleInterval = 800"

definition queueTracesForSending :: "'t list \<Rightarrow> 't FocusedVault \<Rightarrow> 't FocusedVault \<times> 't action list" where
  "queueTracesForSending traces v =
     (let v1 = v\<lparr>pendingTraces := pendingTraces v @ traces\<rparr> in
      if throttleTimeout v1 = None
      then (v1\<lparr>throttleTimeout := Some Timeout\<rparr>, [SetTimeout_sendPendingTraces throttleInterval])
      else (v1, []))"

definition sendTracesImmediately :: "'t list \<Rightarrow> 't action list" where
  "sendTracesImmediately traces = (if length traces > 0 then [OnBatchTrace traces] else [])"

definition sendPendingTraces :: "'t FocusedVault \<Rightarrow> 't FocusedVault \<times> 't action list" where
  "sendPendingTraces v =
     (if length (pendingTraces v) > 0
      then (v\<lparr>pendingTraces := [], throttleTimeout := None\<rparr>, [OnBatchTrace (pendingTraces v)])
      else (v\<lparr>throttleTimeout := None\<rparr>, []))"

text \<open>
  The \<^verbatim>\<open>'message'\<close> handler of \<^verbatim>\<open>connectToTraceWebSocket\<close>. When
  \<^verbatim>\<open>JSON.parse\<close> throws, the \<^verbatim>\<open>catch\<close> logs and nothing was assigned.
\<close>

fun ws_on_message :: "'t frame \<Rightarrow> 't FocusedVault \<Rightarrow> 't FocusedVault \<times> 't action list" where
  "ws_on_message Unparseable v = (v, [])"
| "ws_on_message (Batch parsedData) v =
     (if isFirst v
      then (v\<lparr>tracesData := parsedData, isFirst := False\<rparr>, sendTracesImmediately parsedData)
      else (let (v', as) = queueTracesForSending parsedData (v\<lparr>tracesData := tracesData v @ parsedData\<rparr>)
            in (v'\<lparr>isFirst := False\<rparr>, as)))"
| "ws_on_message (Single parsedData) v =
     (let (v', as) = queueTracesForSending [parsedData] (v\<lparr>tracesData := tracesData v @ [parsedData]\<rparr>)
      in (v'\<lparr>isFirst := False\<rparr>, as))"

text \<open>The \<^verbatim>\<open>'close'\<close> handler.\<close>

definition ws_on_close :: "'t FocusedVault \<Rightarrow> 't FocusedVault \<times> 't action list" where
  "ws_on_close v = (v\<lparr>wsConnection := None\<rparr>, [OnClose])"

text \<open>
  \<^verbatim>\<open>connectToTraceWebSocket\<close>: \<^verbatim>\<open>new WebSocket(fullWsUrl)\<close> throws for a URL that it
  rejects, before \<^verbatim>\<open>wsConnection\<close> is assigned and before any handler is registered;
  nothing in the class catches it.
\<close>

definition connectToTraceWebSocket ::
    "(string \<Rightarrow> bool) \<Rightarrow> string \<Rightarrow> 't FocusedVault \<Rightarrow> error + 't FocusedVault" where
  "connectToTraceWebSocket validUrl vaultSecretKey v =
     (if validUrl vaultSecretKey
      then Inr (v\<lparr>wsConnection := Some (WebSocket vaultSecretKey), isFirst := True\<rparr>)
      else Inl SyntaxError)"

text \<open>
  The constructor, with the \<^verbatim>\<open>retries\<close> of the \<^verbatim>\<open>onClose\<close> closure it is given. It
  throws what \<^verbatim>\<open>connectToTraceWebSocket\<close> throws.
\<close>

definition new_FocusedVault :: "(string \<Rightarrow> bool) \<Rightarrow> string \<Rightarrow> nat \<Rightarrow> error + 't FocusedVault" where
  "new_FocusedVault validUrl k n =
     connectToTraceWebSocket validUrl k
       \<lparr>key = k, tracesData = [], wsConnection = None, pendingTraces = [],
        throttleTimeout = None, isFirst = True, retries = n\<rparr>"

subsection \<open>Class FocusedVaultManager\<close>

text \<open>\<^verbatim>\<open>this.focusedVault?.key\<close>\<close>

definition focusedKey :: "'t FocusedVaultManager \<Rightarrow> string option" where
  "focusedKey s =
     (case focusedVault s of
        None \<Rightarrow> None
      | Some r \<Rightarrow> if r < length (heap s) then Some (key (heap s ! r)) else None)"

definition subscribeToFocusedVaultChange :: "uuid \<Rightarrow> listener \<Rightarrow> 't FocusedVaultManager \<Rightarrow> 't FocusedVaultManager" where
  "subscribeToFocusedVaultChange u onChange s =
     s\<lparr>focusedVaultSubscribers := Map_set u onChange (focusedVaultSubscribers s)\<rparr>"

definition unsubscribeFromFocusedVaultChange :: "uuid \<Rightarrow> 't FocusedVaultManager \<Rightarrow> 't FocusedVaultManager" where
  "unsubscribeFromFocusedVaultChange u s =
     s\<lparr>focusedVaultSubscribers := Map_delete u (focusedVaultSubscribers s)\<rparr>"

definition subscribeToBatchTrace :: "uuid \<Rightarrow> listener \<Rightarrow> 't FocusedVaultManager \<Rightarrow> 't FocusedVaultManager" where
  "subscribeToBatchTrace u onChange s =
     s\<lparr>batchTraceSubscribers := Map_set u onChange (batchTraceSubscribers s)\<rparr>"

definition unsubscribeFromBatchTrace :: "uuid \<Rightarrow> 't FocusedVaultManager \<Rightarrow> 't FocusedVaultManager" where
  "unsubscribeFromBatchTrace u s =
     s\<lparr>batchTraceSubscribers := Map_delete u (batchTraceSubscribers s)\<rparr>"

text \<open>\<^verbatim>\<open>this.focusedVaultSubscribers.forEach(subscriber => subscriber(this.focusedVault))\<close>\<close>

definition notifyFocusedVaultSubscribers :: "'t FocusedVaultManager \<Rightarrow> 't effect list" where
  "notifyFocusedVaultSubscribers s =
     map (\<lambda>p. Call_focusedVaultSubscriber (fst p) (snd p) (focusedVault s)) (focusedVaultSubscribers s)"

text \<open>\<^verbatim>\<open>this.batchTraceSubscribers.forEach(subscriber => subscriber(traces))\<close>\<close>

definition notifyBatchTraceSubscribers :: "'t list \<Rightarrow> 't FocusedVaultManager \<Rightarrow> 't effect list" where
  "notifyBatchTraceSubscribers traces s =
     map (\<lambda>p. Call_batchTraceSubscriber (fst p) (snd p) traces) (batchTraceSubscribers s)"

text \<open>\<^verbatim>\<open>vault.wsConnection?.close()\<close> on the object at \<open>r\<close>.\<close>

definition closeConnection :: "ref \<Rightarrow> 't FocusedVaultManager \<Rightarrow> 't effect list" where
  "closeConnection r s =
     (case wsConnection (heap s ! r) of None \<Rightarrow> [] | Some w \<Rightarrow> [Close_WebSocket r])"

text \<open>
  \<^verbatim>\<open>Math.pow(2, retries + 1) + 100\<close> in IEEE 754 doubles. \<^verbatim>\<open>Math.pow(2, e)\<close> is exact
  up to \<open>e = 1023\<close> and \<^verbatim>\<open>Infinity\<close> from \<open>e = 1024\<close>. The doubles between \<open>2 ^ e\<close>
  and \<open>2 ^ (e + 1)\<close> are \<open>2 ^ (e - 52)\<close> apart (every integer is a double up to
  \<open>2 ^ 53\<close>), and the sum is rounded to the nearest of them, a tie to the one with the
  even significand. The result is the argument that \<^verbatim>\<open>setTimeout\<close> receives; what the
  runtime makes of a delay that large is outside the program.
\<close>

definition ulp :: "nat \<Rightarrow> nat" where
  "ulp e = (if e \<le> 52 then 1 else 2 ^ (e - 52))"

definition roundTiesToEven :: "nat \<Rightarrow> nat \<Rightarrow> nat" where
  "roundTiesToEven u x =
     (let q = x div u; r = x mod u
      in if 2 * r < u \<or> (2 * r = u \<and> even q) then q * u else (q + 1) * u)"

definition reconnectDelay :: "nat \<Rightarrow> number" where
  "reconnectDelay n =
     (if 1024 \<le> n + 1 then Infinity
      else Finite (2 ^ (n + 1) + roundTiesToEven (ulp (n + 1)) 100))"

text \<open>
  \<^verbatim>\<open>switchFocusedVault\<close>. When the constructor throws, the old connection has been
  closed and set to null already, \<^verbatim>\<open>this.focusedVault\<close> is not assigned and the
  subscribers are not called.
\<close>

definition switchFocusedVault ::
    "(string \<Rightarrow> bool) \<Rightarrow> string \<Rightarrow> nat \<Rightarrow> 't FocusedVaultManager \<Rightarrow> 't FocusedVaultManager \<times> 't effect list" where
  "switchFocusedVault validUrl newFocusKey n s =
     (if focusedKey s \<noteq> Some newFocusKey
      then (let (s1, es1) =
                  (case focusedVault s of
                     None \<Rightarrow> (s, [])
                   | Some r \<Rightarrow>
                       (s\<lparr>heap := (heap s)[r := (heap s ! r)\<lparr>wsConnection := None\<rparr>]\<rparr>,
                        closeConnection r s));
                r' = length (heap s1)
            in case new_FocusedVault validUrl newFocusKey n of
                 Inl e \<Rightarrow> (s1, es1 @ [Throws e])
               | Inr v \<Rightarrow>
                   (let s2 = s1\<lparr>heap := heap s1 @ [v], focusedVault := Some r'\<rparr>
                    in (s2, es1 @ [New_WebSocket r' newFocusKey] @ notifyFocusedVaultSubscribers s2)))
      else (s, notifyFocusedVaultSubscribers s))"

definition dispose :: "'t FocusedVaultManager \<Rightarrow> 't FocusedVaultManager \<times> 't effect list" where
  "dispose s =
     (let es1 = (case vaultKeyPollingInterval s of None \<Rightarrow> [] | Some t \<Rightarrow> [ClearInterval_check]);
          es2 = (case focusedVault s of None \<Rightarrow> [] | Some r \<Rightarrow> closeConnection r s)
      in (s\<lparr>vaultKeyPollingInterval := None, focusedVault := None\<rparr>, es1 @ es2))"

text \<open>
  \<^verbatim>\<open>startVaultKeyMonitoring\<close> starts a discovery pass too; the pass suspends at its
  \<^verbatim>\<open>await\<close> before it reads or writes the manager, and its completion is a handler of
  its own (\<open>checkVaultKeyAndUpdateConnection\<close> below).
\<close>

definition startVaultKeyMonitoring :: "'t FocusedVaultManager \<Rightarrow> 't FocusedVaultManager \<times> 't effect list" where
  "startVaultKeyMonitoring s =
     (let (s1, es) = dispose s
      in (s1\<lparr>vaultKeyPollingInterval := Some Timeout\<rparr>, es @ [SetInterval_check 5000]))"

text \<open>
  \<^verbatim>\<open>vaults.sort((a, b) => b.createdAt - a.createdAt)\<close>: a stable sort, newest first.
\<close>

definition sortByRecency :: "VaultHistoryEntry list \<Rightarrow> VaultHistoryEntry list" where
  "sortByRecency vaults = sort_key (\<lambda>v. - createdAt v) vaults"

text \<open>
  One discovery pass. Its argument is what the pass read from the outside:
  \<^verbatim>\<open>vscode.workspace.workspaceFolders\<close> (\<open>None\<close> when undefined) and, for every
  folder, the result of \<^verbatim>\<open>getCurrentLocalVaultKey\<close> (\<open>None\<close> for null). Everything
  after the \<^verbatim>\<open>await\<close> runs without interruption.
\<close>

definition checkVaultKeyAndUpdateConnection ::
    "(string \<Rightarrow> bool) \<Rightarrow> VaultHistoryEntry option list option \<Rightarrow> 't FocusedVaultManager \<Rightarrow>
       't FocusedVaultManager \<times> 't effect list" where
  "checkVaultKeyAndUpdateConnection validUrl workspaceFolders s =
     (case workspaceFolders of
        None \<Rightarrow> (s, [])
      | Some results \<Rightarrow>
          (case sortByRecency (List.map_filter id results) of
             [] \<Rightarrow> (s, [])
           | mostRecentVault # _ \<Rightarrow>
               if createdAt mostRecentVault > lastVaultFoundTimestamp s
               then switchFocusedVault validUrl (entry_key mostRecentVault) 0
                      (s\<lparr>lastVaultFoundTimestamp := createdAt mostRecentVault\<rparr>)
               else (s, [])))"

text \<open>
  The two callbacks that \<^verbatim>\<open>switchFocusedVault\<close> hands to the constructor, run for the
  object at \<open>r\<close>, and the timer that \<^verbatim>\<open>queueTracesForSending\<close> arms.
\<close>

fun perform :: "'t FocusedVaultManager \<Rightarrow> ref \<Rightarrow> 't action \<Rightarrow> 't effect list" where
  "perform s r (OnBatchTrace traces) = notifyBatchTraceSubscribers traces s"
| "perform s r OnClose =
     [SetTimeout_reconnect (key (heap s ! r)) (retries (heap s ! r)) (reconnectDelay (retries (heap s ! r)))]"
| "perform s r (SetTimeout_sendPendingTraces d) = [SetTimeout_throttle r d]"

text \<open>A handler of the object at \<open>r\<close> runs; an address that was never allocated has none.\<close>

definition onVault ::
    "ref \<Rightarrow> ('t FocusedVault \<Rightarrow> 't FocusedVault \<times> 't action list) \<Rightarrow> 't FocusedVaultManager \<Rightarrow> 't FocusedVaultManager \<times> 't effect list" where
  "onVault r handler s =
     (if r < length (heap s)
      then (let (v', as) = handler (heap s ! r);
                s' = s\<lparr>heap := (heap s)[r := v']\<rparr>
            in (s', concat (map (perform s' r) as)))
      else (s, []))"

text \<open>
  The callback of the \<^verbatim>\<open>setTimeout\<close> in the \<^verbatim>\<open>onClose\<close> closure built by
  \<^verbatim>\<open>switchFocusedVault(newFocusKey, retries)\<close>.
\<close>

definition reconnectTimer ::
    "(string \<Rightarrow> bool) \<Rightarrow> string \<Rightarrow> nat \<Rightarrow> 't FocusedVaultManager \<Rightarrow> 't FocusedVaultManager \<times> 't effect list" where
  "reconnectTimer validUrl newFocusKey n s =
     (if focusedKey s = Some newFocusKey
      then switchFocusedVault validUrl newFocusKey (n + 1) s
      else (s, []))"

subsection \<open>The event loop\<close>

datatype 't event =
    SubscribeToFocusedVaultChange uuid listener
  | UnsubscribeFromFocusedVaultChange uuid
  | SubscribeToBatchTrace uuid listener
  | UnsubscribeFromBatchTrace uuid
  | StartVaultKeyMonitoring
  | Dispose
  | CheckVaultKey "VaultHistoryEntry option list option"
  | SwitchFocusedVault string nat
  | WsMessage ref "'t frame"
  | WsClose ref
  | ThrottleTimer ref
  | ReconnectTimer string nat

fun step ::
    "(string \<Rightarrow> bool) \<Rightarrow> 't event \<Rightarrow> 't FocusedVaultManager \<Rightarrow> 't FocusedVaultManager \<times> 't effect list" where
  "step validUrl (SubscribeToFocusedVaultChange u l) s = (subscribeToFocusedVaultChange u l s, [])"
| "step validUrl (UnsubscribeFromFocusedVaultChange u) s = (unsubscribeFromFocusedVaultChange u s, [])"
| "step validUrl (SubscribeToBatchTrace u l) s = (subscribeToBatchTrace u l s, [])"
| "step validUrl (UnsubscribeFromBatchTrace u) s = (unsubscribeFromBatchTrace u s, [])"
| "step validUrl StartVaultKeyMonitoring s = startVaultKeyMonitoring s"
| "step validUrl Dispose s = dispose s"
| "step validUrl (CheckVaultKey folders) s = checkVaultKeyAndUpdateConnection validUrl folders s"
| "step validUrl (SwitchFocusedVault k n) s = switchFocusedVault validUrl k n s"
| "step validUrl (WsMessage r f) s = onVault r (ws_on_message f) s"
| "step validUrl (WsClose r) s = onVault r ws_on_close s"
| "step validUrl (ThrottleTimer r) s = onVault r sendPendingTraces s"
| "step validUrl (ReconnectTimer k n) s = reconnectTimer validUrl k n s"

fun run ::
    "(string \<Rightarrow> bool) \<Rightarrow> 't event list \<Rightarrow> 't FocusedVaultManager \<Rightarrow> 't FocusedVaultManager \<times> 't effect list" where
  "run validUrl [] s = (s, [])"
| "run validUrl (e # es) s =
     (let (s1, out1) = step validUrl e s; (s2, out2) = run validUrl es s1 in (s2, out1 @ out2))"

text \<open>The manager as the field initialisers leave it, before the constructor's body.\<close>

definition init :: "'t FocusedVaultManager" where
  "init =
     \<lparr>focusedVault = None, lastVaultFoundTimestamp = 0, vaultKeyPollingInterval = None,
      focusedVaultSubscribers = [], batchTraceSubscribers = [], heap = []\<rparr>"

subsection \<open>Notions used to state the properties\<close>

text \<open>
  An instance of the parameter \<open>validUrl\<close> for the examples: the URL of a key is
  rejected exactly when the key contains \<open>#\<close>, which starts a fragment identifier.
\<close>

definition noFragment :: "string \<Rightarrow> bool" where
  "noFragment k \<longleftrightarrow> CHR ''#'' \<notin> set k"

text \<open>The object that \<^verbatim>\<open>new FocusedVault\<close> builds for the key \<open>a\<close> with \<^verbatim>\<open>retries = 0\<close>.\<close>

definition exampleVault :: "nat FocusedVault" where
  "exampleVault =
     \<lparr>key = ''a'', tracesData = [], wsConnection = Some (WebSocket ''a''), pendingTraces = [],
      throttleTimeout = None, isFirst = True, retries = 0\<rparr>"

text \<open>
  A throttle window seen from the batcher: the calls of \<^verbatim>\<open>queueTracesForSending\<close> made
  one after the other, before the throttle timer fires.
\<close>

fun enqueueAll :: "'t list list \<Rightarrow> 't FocusedVault \<Rightarrow> 't FocusedVault \<times> 't action list" where
  "enqueueAll [] v = (v, [])"
| "enqueueAll (traces # rest) v =
     (let (v1, as1) = queueTracesForSending traces v; (v2, as2) = enqueueAll rest v1
      in (v2, as1 @ as2))"

text \<open>The candidates a discovery pass is left with after its \<^verbatim>\<open>filter\<close>.\<close>

definition candidates :: "VaultHistoryEntry option list option \<Rightarrow> VaultHistoryEntry list" where
  "candidates workspaceFolders =
     (case workspaceFolders of None \<Rightarrow> [] | Some results \<Rightarrow> List.map_filter id results)"

text \<open>All candidates that a sequence of discovery passes has seen.\<close>

definition observed :: "VaultHistoryEntry option list option list \<Rightarrow> VaultHistoryEntry list" where
  "observed passes = concat (map candidates passes)"

text \<open>
  The manager follows the newest of the candidates \<open>obs\<close>: none of them is newer than the
  last-accepted timestamp, and either one of them carries that timestamp and the focused
  key, or none of them is newer than the initial timestamp 0 and nothing is focused.
\<close>

definition latest_focused :: "VaultHistoryEntry list \<Rightarrow> 't FocusedVaultManager \<Rightarrow> bool" where
  "latest_focused obs s \<longleftrightarrow>
     (\<forall>c\<in>set obs. createdAt c \<le> lastVaultFoundTimestamp s) \<and>
     (if \<exists>c\<in>set obs. 0 < createdAt c
      then \<exists>c\<in>set obs. createdAt c = lastVaultFoundTimestamp s \<and> focusedKey s = Some (entry_key c)
      else focusedVault s = None \<and> lastVaultFoundTimestamp s = 0)"

text \<open>An effect is a call of the subscriber registered under the key \<open>u\<close>.\<close>

fun calls_focusedVaultSubscriber :: "uuid \<Rightarrow> 't effect \<Rightarrow> bool" where
  "calls_focusedVaultSubscriber u (Call_focusedVaultSubscriber u' l a) = (u' = u)"
| "calls_focusedVaultSubscriber u x = False"

fun calls_batchTraceSubscriber :: "uuid \<Rightarrow> 't effect \<Rightarrow> bool" where
  "calls_batchTraceSubscriber u (Call_batchTraceSubscriber u' l a) = (u' = u)"
| "calls_batchTraceSubscriber u x = False"

text \<open>An event is a new subscription for which \<^verbatim>\<open>crypto.randomUUID()\<close> returned \<open>u\<close> again.\<close>

fun reuses_focus_uuid :: "uuid \<Rightarrow> 't event \<Rightarrow> bool" where
  "reuses_focus_uuid u (SubscribeToFocusedVaultChange u' l) = (u' = u)"
| "reuses_focus_uuid u e = False"

fun reuses_batch_uuid :: "uuid \<Rightarrow> 't event \<Rightarrow> bool" where
  "reuses_batch_uuid u (SubscribeToBatchTrace u' l) = (u' = u)"
| "reuses_batch_uuid u e = False"

text \<open>
  An event that sets the focus on behalf of a caller from outside the discovery loop, and
  the candidates that an event reports to the manager.
\<close>

fun refocuses :: "'t event \<Rightarrow> bool" where
  "refocuses (SwitchFocusedVault k n) = True"
| "refocuses Dispose = True"
| "refocuses StartVaultKeyMonitoring = True"
| "refocuses e = False"

fun reported :: "'t event \<Rightarrow> VaultHistoryEntry list" where
  "reported (CheckVaultKey workspaceFolders) = candidates workspaceFolders"
| "reported e = []"

section \<open>Properties\<close>

subsection \<open>Auxiliary facts\<close>

lemmas handler_defs =
  switchFocusedVault_def focusedKey_def new_FocusedVault_def connectToTraceWebSocket_def
  notifyFocusedVaultSubscribers_def notifyBatchTraceSubscribers_def closeConnection_def
  checkVaultKeyAndUpdateConnection_def sortByRecency_def reconnectTimer_def onVault_def
  ws_on_close_def sendPendingTraces_def queueTracesForSending_def sendTracesImmediately_def
  subscribeToFocusedVaultChange_def unsubscribeFromFocusedVaultChange_def
  subscribeToBatchTrace_def unsubscribeFromBatchTrace_def Map_delete_def dispose_def
  startVaultKeyMonitoring_def reconnectDelay_def ulp_def roundTiesToEven_def
  throttleInterval_def init_def noFragment_def exampleVault_def List.map_filter_simps Let_def

lemma new_FocusedVault_valid:
  "validUrl k \<Longrightarrow>
   new_FocusedVault validUrl k n =
     Inr \<lparr>key = k, tracesData = [], wsConnection = Some (WebSocket k), pendingTraces = [],
          throttleTimeout = None, isFirst = True, retries = n\<rparr>"
  by (simp add: new_FocusedVault_def connectToTraceWebSocket_def)

lemma new_FocusedVault_invalid:
  "\<not> validUrl k \<Longrightarrow> new_FocusedVault validUrl k n = Inl SyntaxError"
  by (simp add: new_FocusedVault_def connectToTraceWebSocket_def)

lemma switchFocusedVault_focused:
  "focusedKey s = Some k \<Longrightarrow>
   switchFocusedVault validUrl k n s = (s, notifyFocusedVaultSubscribers s)"
  by (simp add: switchFocusedVault_def)

lemma reconnectTimer_eq:
  "reconnectTimer validUrl k n s =
     (s, if focusedKey s = Some k then notifyFocusedVaultSubscribers s else [])"
  by (simp add: reconnectTimer_def switchFocusedVault_focused)

lemma focusedKey_switchFocusedVault:
  "validUrl k \<Longrightarrow> focusedKey (fst (switchFocusedVault validUrl k n s)) = Some k"
  by (auto simp: switchFocusedVault_def focusedKey_def new_FocusedVault_valid
      Let_def nth_append split: option.splits)

lemma switchFocusedVault_new:
  "focusedKey s \<noteq> Some k \<Longrightarrow> validUrl k \<Longrightarrow>
   focusedVault (fst (switchFocusedVault validUrl k n s)) = Some (length (heap s)) \<and>
   length (heap (fst (switchFocusedVault validUrl k n s))) = Suc (length (heap s)) \<and>
   heap (fst (switchFocusedVault validUrl k n s)) ! length (heap s) =
     \<lparr>key = k, tracesData = [], wsConnection = Some (WebSocket k), pendingTraces = [],
      throttleTimeout = None, isFirst = True, retries = n\<rparr>"
  by (auto simp: switchFocusedVault_def new_FocusedVault_valid Let_def nth_append
      split: option.splits)

lemma focusedKey_heap_wsConnection:
  "focusedKey (s\<lparr>heap := (heap s)[r := (heap s ! r)\<lparr>wsConnection := w\<rparr>]\<rparr>) = focusedKey s"
  by (cases "r < length (heap s)") (auto simp: focusedKey_def nth_list_update split: option.splits)

lemma onVault_ws_on_close:
  "r < length (heap s) \<Longrightarrow>
   onVault r ws_on_close s =
     (s\<lparr>heap := (heap s)[r := (heap s ! r)\<lparr>wsConnection := None\<rparr>]\<rparr>,
      [SetTimeout_reconnect (key (heap s ! r)) (retries (heap s ! r))
         (reconnectDelay (retries (heap s ! r)))])"
  by (simp add: onVault_def ws_on_close_def)

lemma run_Cons_noop: "step validUrl e s = (s, []) \<Longrightarrow> run validUrl (e # es) s = run validUrl es s"
  by (simp split: prod.splits)

lemma map_filter_all_None:
  "\<forall>r\<in>set results. r = None \<Longrightarrow> List.map_filter id results = []"
  by (induction results) (auto simp: List.map_filter_simps)

subsection \<open>Discovery passes that find nothing\<close>

text \<open>
  Claim C8. A discovery pass in which no root yields a candidate, because there are no
  workspace folders (undefined, or an empty list) or because every resolver result is
  null, returns the manager as it was (focused vault, last-accepted timestamp, the store
  with every connection, both subscriber maps) and performs no effect at all: no
  subscriber of either map is called.
\<close>

theorem empty_discovery_pass_changes_nothing:
  "checkVaultKeyAndUpdateConnection validUrl None s = (s, []) \<and>
   checkVaultKeyAndUpdateConnection validUrl (Some []) s = (s, []) \<and>
   ((\<forall>r\<in>set results. r = None) \<longrightarrow>
      checkVaultKeyAndUpdateConnection validUrl (Some results) s = (s, []))"
  by (simp add: checkVaultKeyAndUpdateConnection_def sortByRecency_def map_filter_all_None
      List.map_filter_simps)

theorem empty_discovery_pass_witness:
  "step noFragment (CheckVaultKey (Some [None, None]))
     (fst (run noFragment [SubscribeToFocusedVaultChange ''u1'' 1, SwitchFocusedVault ''a'' 0]
        (init :: nat FocusedVaultManager))) =
   (fst (run noFragment [SubscribeToFocusedVaultChange ''u1'' 1, SwitchFocusedVault ''a'' 0] init), [])"
  using empty_discovery_pass_changes_nothing
    [of noFragment "fst (run noFragment [SubscribeToFocusedVaultChange ''u1'' 1, SwitchFocusedVault ''a'' 0]
        (init :: nat FocusedVaultManager))" "[None, None]"]
  by simp

subsection \<open>Switching to the key that is focused already\<close>

text \<open>
  Claim C7. A call \<^verbatim>\<open>switchFocusedVault(newFocusKey, retries)\<close> whose key is the key of
  the focused vault leaves the whole manager as it was: the focused object, its socket,
  its accumulated traces and its pending buffer are untouched, no socket is closed or
  opened. Every subscriber of the focus-change map is still called, in the order of the
  map, with the focused vault.
\<close>

theorem switch_to_focused_key_only_notifies:
  "focusedKey s = Some k \<Longrightarrow>
   switchFocusedVault validUrl k n s =
     (s, map (\<lambda>p. Call_focusedVaultSubscriber (fst p) (snd p) (focusedVault s))
           (focusedVaultSubscribers s))"
  by (simp add: switchFocusedVault_def notifyFocusedVaultSubscribers_def)

theorem switch_to_focused_key_witness:
  "focusedKey (fst (run noFragment [SubscribeToFocusedVaultChange ''u1'' 1, SwitchFocusedVault ''a'' 0,
       WsMessage 0 (Batch [5, 6])] (init :: nat FocusedVaultManager))) = Some ''a'' \<and>
   switchFocusedVault noFragment ''a'' 3
     (fst (run noFragment [SubscribeToFocusedVaultChange ''u1'' 1, SwitchFocusedVault ''a'' 0,
       WsMessage 0 (Batch [5, 6])] (init :: nat FocusedVaultManager))) =
   (fst (run noFragment [SubscribeToFocusedVaultChange ''u1'' 1, SwitchFocusedVault ''a'' 0,
       WsMessage 0 (Batch [5, 6])] init),
    [Call_focusedVaultSubscriber ''u1'' 1 (Some 0)])"
proof -
  have k: "focusedKey (fst (run noFragment [SubscribeToFocusedVaultChange ''u1'' 1, SwitchFocusedVault ''a'' 0,
       WsMessage 0 (Batch [5, 6])] (init :: nat FocusedVaultManager))) = Some ''a''"
    by (simp add: handler_defs)
  have "focusedVaultSubscribers (fst (run noFragment [SubscribeToFocusedVaultChange ''u1'' 1,
       SwitchFocusedVault ''a'' 0, WsMessage 0 (Batch [5, 6])] (init :: nat FocusedVaultManager))) =
       [(''u1'', 1)] \<and>
     focusedVault (fst (run noFragment [SubscribeToFocusedVaultChange ''u1'' 1,
       SwitchFocusedVault ''a'' 0, WsMessage 0 (Batch [5, 6])] (init :: nat FocusedVaultManager))) =
       Some 0"
    by (simp add: handler_defs)
  with k switch_to_focused_key_only_notifies [OF k, of noFragment 3] show ?thesis
    by simp
qed

subsection \<open>The reconnect timer and its guard\<close>

text \<open>
  Claim C4. The reconnect timer that the \<^verbatim>\<open>onClose\<close> closure arms for the key \<open>k\<close>
  does nothing when it fires while the focused vault's key is not \<open>k\<close>, which includes
  the case that no vault is focused: the manager is unchanged and no effect is performed.
  Hence the close event of a connection whose key is not the focused one, followed by
  the timer it arms, opens no socket, calls no subscriber and leaves the focus alone:
  the only effect is the arming of the timer, and the only change is that the closed
  object's \<^verbatim>\<open>wsConnection\<close> is null.
\<close>

theorem stale_reconnect_is_noop:
  "(focusedKey s \<noteq> Some k \<longrightarrow> step validUrl (ReconnectTimer k n) s = (s, [])) \<and>
   (focusedVault s = None \<longrightarrow> step validUrl (ReconnectTimer k n) s = (s, [])) \<and>
   (r < length (heap s) \<and> focusedKey s \<noteq> Some (key (heap s ! r)) \<longrightarrow>
      run validUrl [WsClose r, ReconnectTimer (key (heap s ! r)) (retries (heap s ! r))] s =
        (s\<lparr>heap := (heap s)[r := (heap s ! r)\<lparr>wsConnection := None\<rparr>]\<rparr>,
         [SetTimeout_reconnect (key (heap s ! r)) (retries (heap s ! r))
            (reconnectDelay (retries (heap s ! r)))]))"
proof (intro conjI impI)
  assume "focusedKey s \<noteq> Some k"
  then show "step validUrl (ReconnectTimer k n) s = (s, [])"
    by (simp add: reconnectTimer_def)
next
  assume "focusedVault s = None"
  then show "step validUrl (ReconnectTimer k n) s = (s, [])"
    by (simp add: reconnectTimer_def focusedKey_def)
next
  assume a: "r < length (heap s) \<and> focusedKey s \<noteq> Some (key (heap s ! r))"
  let ?s1 = "s\<lparr>heap := (heap s)[r := (heap s ! r)\<lparr>wsConnection := None\<rparr>]\<rparr>"
  let ?out = "[SetTimeout_reconnect (key (heap s ! r)) (retries (heap s ! r))
                 (reconnectDelay (retries (heap s ! r)))]"
  have 1: "step validUrl (WsClose r) s = (?s1, ?out)"
    using a by (simp add: onVault_ws_on_close)
  have "focusedKey ?s1 \<noteq> Some (key (heap s ! r))"
    using a by (simp add: focusedKey_heap_wsConnection)
  then have 2: "step validUrl (ReconnectTimer (key (heap s ! r)) (retries (heap s ! r))) ?s1 = (?s1, [])"
    by (simp add: reconnectTimer_def)
  show "run validUrl [WsClose r, ReconnectTimer (key (heap s ! r)) (retries (heap s ! r))] s = (?s1, ?out)"
    by (simp only: run.simps 1 2 Let_def prod.case append_Nil append_Cons)
qed

theorem stale_reconnect_witness:
  "focusedKey (fst (run noFragment [SwitchFocusedVault ''a'' 0, SwitchFocusedVault ''b'' 0]
      (init :: nat FocusedVaultManager))) = Some ''b'' \<and>
   snd (run noFragment [WsClose 0, ReconnectTimer ''a'' 0]
      (fst (run noFragment [SwitchFocusedVault ''a'' 0, SwitchFocusedVault ''b'' 0]
        (init :: nat FocusedVaultManager)))) =
   [SetTimeout_reconnect ''a'' 0 (Finite 102)] \<and>
   step noFragment (ReconnectTimer ''a'' 0) (fst (dispose (fst (run noFragment [SwitchFocusedVault ''a'' 0]
      (init :: nat FocusedVaultManager))))) =
   (fst (dispose (fst (run noFragment [SwitchFocusedVault ''a'' 0] init))), [])"
proof -
  let ?s = "fst (run noFragment [SwitchFocusedVault ''a'' 0, SwitchFocusedVault ''b'' 0]
      (init :: nat FocusedVaultManager))"
  let ?d = "fst (dispose (fst (run noFragment [SwitchFocusedVault ''a'' 0] (init :: nat FocusedVaultManager))))"
  have k: "focusedKey ?s = Some ''b''"
    by (simp add: handler_defs)
  have h: "heap ?s ! 0 = \<lparr>key = ''a'', tracesData = [], wsConnection = None, pendingTraces = [],
        throttleTimeout = None, isFirst = True, retries = 0\<rparr> \<and> length (heap ?s) = 2"
    by (simp add: handler_defs)
  have d: "focusedVault ?d = None"
    by (simp add: handler_defs)
  from k h stale_reconnect_is_noop [of ?s "''a''" noFragment 0 0]
  have "snd (run noFragment [WsClose 0, ReconnectTimer ''a'' 0] ?s) = [SetTimeout_reconnect ''a'' 0 (Finite 102)]"
    by (simp add: reconnectDelay_def ulp_def roundTiesToEven_def)
  moreover from d stale_reconnect_is_noop [of ?d "''a''" noFragment 0 0]
  have "step noFragment (ReconnectTimer ''a'' 0) ?d = (?d, [])"
    by simp
  ultimately show ?thesis
    using k by simp
qed

subsection \<open>The reconnect timer does not reconnect\<close>

lemma reconnectDelay_exact:
  assumes "n \<le> 53"
  shows "reconnectDelay n = Finite (2 ^ (n + 1) + 100)"
proof -
  consider "n + 1 \<le> 52" | "n + 1 = 53" | "n + 1 = 54"
    using assms by linarith
  then have "roundTiesToEven (ulp (n + 1)) 100 = 100"
    by cases (simp_all add: ulp_def roundTiesToEven_def)
  with assms show ?thesis
    by (simp add: reconnectDelay_def)
qed


text \<open>
  A further property: the reconnect timer never opens a socket. When it fires while its key
  is still the focused one, the call \<^verbatim>\<open>switchFocusedVault(k, n + 1)\<close> finds the key
  unchanged, skips the switch and only calls the focus-change subscribers; otherwise the
  guard makes it do nothing. Either way the manager, and with it the closed connection
  of the focused vault, stays as it was.
\<close>

theorem reconnect_timer_opens_no_socket:
  "step validUrl (ReconnectTimer k n) s =
     (s, if focusedKey s = Some k
         then map (\<lambda>p. Call_focusedVaultSubscriber (fst p) (snd p) (focusedVault s))
                (focusedVaultSubscribers s)
         else [])"
  by (simp add: reconnectTimer_eq notifyFocusedVaultSubscribers_def)

text \<open>
  A further property: what the close handler arms. When the connection of the vault
  built by \<^verbatim>\<open>switchFocusedVault(k, n)\<close> closes, the \<^verbatim>\<open>onClose\<close> closure arms exactly one
  timer, for the key \<open>k\<close> and \<^verbatim>\<open>retries = n\<close>, with the delay that the double arithmetic
  gives: \<open>2 ^ (n + 1) + 100\<close> milliseconds up to \<open>n = 53\<close>. No bound is applied to
  \<open>n\<close>.
\<close>

theorem close_arms_reconnect_timer:
  "(focusedKey s \<noteq> Some k \<and> validUrl k \<longrightarrow>
      (let s1 = fst (switchFocusedVault validUrl k n s); r = length (heap s)
       in focusedVault s1 = Some r \<and> key (heap s1 ! r) = k \<and> retries (heap s1 ! r) = n \<and>
          snd (step validUrl (WsClose r) s1) = [SetTimeout_reconnect k n (reconnectDelay n)])) \<and>
   (n \<le> 53 \<longrightarrow> reconnectDelay n = Finite (2 ^ (n + 1) + 100))"
proof (intro conjI impI)
  assume a: "focusedKey s \<noteq> Some k \<and> validUrl k"
  then have new: "focusedVault (fst (switchFocusedVault validUrl k n s)) = Some (length (heap s)) \<and>
      length (heap (fst (switchFocusedVault validUrl k n s))) = Suc (length (heap s)) \<and>
      heap (fst (switchFocusedVault validUrl k n s)) ! length (heap s) =
        \<lparr>key = k, tracesData = [], wsConnection = Some (WebSocket k), pendingTraces = [],
         throttleTimeout = None, isFirst = True, retries = n\<rparr>"
    by (simp add: switchFocusedVault_new)
  have "snd (step validUrl (WsClose (length (heap s))) (fst (switchFocusedVault validUrl k n s))) =
      [SetTimeout_reconnect k n (reconnectDelay n)]"
    using new by (simp add: onVault_ws_on_close)
  then show "let s1 = fst (switchFocusedVault validUrl k n s); r = length (heap s)
       in focusedVault s1 = Some r \<and> key (heap s1 ! r) = k \<and> retries (heap s1 ! r) = n \<and>
          snd (step validUrl (WsClose r) s1) = [SetTimeout_reconnect k n (reconnectDelay n)]"
    using new by (simp add: Let_def)
next
  assume "n \<le> 53"
  then show "reconnectDelay n = Finite (2 ^ (n + 1) + 100)"
    by (rule reconnectDelay_exact)
qed

theorem close_arms_reconnect_timer_witness:
  "snd (step noFragment (WsClose 0)
     (fst (switchFocusedVault noFragment ''a'' 2 (init :: nat FocusedVaultManager)))) =
   [SetTimeout_reconnect ''a'' 2 (Finite 108)]"
proof -
  have 1: "focusedKey (init :: nat FocusedVaultManager) \<noteq> Some ''a'' \<and> noFragment ''a''"
    by (simp add: focusedKey_def init_def noFragment_def)
  have 3: "length (heap (init :: nat FocusedVaultManager)) = 0"
    by (simp add: init_def)
  note inst = close_arms_reconnect_timer [of init "''a''" noFragment 2]
  from inst 1 have
    "snd (step noFragment (WsClose (length (heap (init :: nat FocusedVaultManager))))
       (fst (switchFocusedVault noFragment ''a'' 2 (init :: nat FocusedVaultManager)))) =
     [SetTimeout_reconnect ''a'' 2 (reconnectDelay 2)]"
    unfolding Let_def by blast
  moreover from inst have "(2 :: nat) \<le> 53 \<longrightarrow> reconnectDelay 2 = Finite (2 ^ (2 + 1) + 100)"
    by blast
  then have "reconnectDelay 2 = Finite 108"
    by simp
  ultimately show ?thesis
    unfolding 3 by simp
qed

subsection \<open>Discovery follows the newest candidate\<close>

lemma sortByRecency_head:
  assumes "sortByRecency vs = m # rest"
  shows "m \<in> set vs \<and> (\<forall>v\<in>set vs. createdAt v \<le> createdAt m)"
proof -
  have s: "set (m # rest) = set vs"
    using assms by (metis sortByRecency_def set_sort)
  have "sorted (map (\<lambda>v. - createdAt v) (m # rest))"
    using assms by (metis sortByRecency_def sorted_sort_key)
  then have "\<forall>v\<in>set rest. createdAt v \<le> createdAt m"
    by simp
  with s show ?thesis
    by auto
qed

lemma sortByRecency_Nil: "sortByRecency vs = [] \<Longrightarrow> vs = []"
  by (metis sortByRecency_def set_sort set_empty)

lemma check_cases:
  "(\<forall>c\<in>set (candidates p). createdAt c \<le> lastVaultFoundTimestamp s) \<and>
     checkVaultKeyAndUpdateConnection validUrl p s = (s, []) \<or>
   (\<exists>m\<in>set (candidates p). (\<forall>c\<in>set (candidates p). createdAt c \<le> createdAt m) \<and>
      lastVaultFoundTimestamp s < createdAt m \<and>
      checkVaultKeyAndUpdateConnection validUrl p s =
        switchFocusedVault validUrl (entry_key m) 0 (s\<lparr>lastVaultFoundTimestamp := createdAt m\<rparr>))"
proof (cases p)
  case None
  then show ?thesis
    by (simp add: candidates_def checkVaultKeyAndUpdateConnection_def)
next
  case (Some results)
  show ?thesis
  proof (cases "sortByRecency (List.map_filter id results)")
    case Nil
    then have "List.map_filter id results = []"
      by (rule sortByRecency_Nil)
    with Some Nil show ?thesis
      by (simp add: candidates_def checkVaultKeyAndUpdateConnection_def)
  next
    case (Cons m rest)
    note hd = sortByRecency_head [OF Cons]
    show ?thesis
    proof (cases "lastVaultFoundTimestamp s < createdAt m")
      case True
      with Some Cons hd show ?thesis
        by (auto simp: candidates_def checkVaultKeyAndUpdateConnection_def)
    next
      case False
      with Some Cons hd show ?thesis
        by (fastforce simp: candidates_def checkVaultKeyAndUpdateConnection_def)
    qed
  qed
qed

lemma lastVaultFoundTimestamp_switchFocusedVault:
  "lastVaultFoundTimestamp (fst (switchFocusedVault validUrl k n s)) = lastVaultFoundTimestamp s"
  by (auto simp: switchFocusedVault_def Let_def split: option.splits sum.splits)

lemma latest_focused_step:
  assumes "latest_focused obs s" "\<forall>c\<in>set (candidates p). validUrl (entry_key c)"
  shows "latest_focused (obs @ candidates p) (fst (checkVaultKeyAndUpdateConnection validUrl p s))"
proof -
  from check_cases [of p s validUrl] show ?thesis
  proof
    assume a: "(\<forall>c\<in>set (candidates p). createdAt c \<le> lastVaultFoundTimestamp s) \<and>
       checkVaultKeyAndUpdateConnection validUrl p s = (s, [])"
    have "0 \<le> lastVaultFoundTimestamp s"
      using assms(1) unfolding latest_focused_def by (auto split: if_splits)
    with a assms(1) show ?thesis
      unfolding latest_focused_def by (auto split: if_splits)
  next
    assume "\<exists>m\<in>set (candidates p). (\<forall>c\<in>set (candidates p). createdAt c \<le> createdAt m) \<and>
      lastVaultFoundTimestamp s < createdAt m \<and>
      checkVaultKeyAndUpdateConnection validUrl p s =
        switchFocusedVault validUrl (entry_key m) 0 (s\<lparr>lastVaultFoundTimestamp := createdAt m\<rparr>)"
    then obtain m where m: "m \<in> set (candidates p)"
      "\<forall>c\<in>set (candidates p). createdAt c \<le> createdAt m"
      "lastVaultFoundTimestamp s < createdAt m"
      "checkVaultKeyAndUpdateConnection validUrl p s =
        switchFocusedVault validUrl (entry_key m) 0 (s\<lparr>lastVaultFoundTimestamp := createdAt m\<rparr>)"
      by blast
    let ?s' = "fst (checkVaultKeyAndUpdateConnection validUrl p s)"
    have l: "lastVaultFoundTimestamp ?s' = createdAt m"
      by (simp add: m(4) lastVaultFoundTimestamp_switchFocusedVault)
    have "validUrl (entry_key m)"
      using assms(2) m(1) by blast
    then have k: "focusedKey ?s' = Some (entry_key m)"
      by (simp add: m(4) focusedKey_switchFocusedVault)
    have z: "0 \<le> lastVaultFoundTimestamp s"
      using assms(1) unfolding latest_focused_def by (auto split: if_splits)
    have b: "\<forall>c\<in>set obs. createdAt c \<le> createdAt m"
      using assms(1) m(3) unfolding latest_focused_def by force
    have pos: "\<exists>c\<in>set (obs @ candidates p). 0 < createdAt c"
      using m(1,3) z by force
    have top: "\<forall>c\<in>set (obs @ candidates p). createdAt c \<le> createdAt m"
      using m(2) b by auto
    have foc: "\<exists>c\<in>set (obs @ candidates p). createdAt c = createdAt m \<and> Some (entry_key m) = Some (entry_key c)"
      using m(1) by auto
    show ?thesis
      unfolding latest_focused_def l k using pos top foc by simp
  qed
qed

lemma fst_run_Cons: "fst (run validUrl (e # es) s) = fst (run validUrl es (fst (step validUrl e s)))"
  by (simp add: Let_def split: prod.splits)

lemma latest_focused_run:
  "latest_focused obs s \<Longrightarrow> \<forall>c\<in>set (observed passes). validUrl (entry_key c) \<Longrightarrow>
   latest_focused (obs @ observed passes) (fst (run validUrl (map CheckVaultKey passes) s))"
proof (induction passes arbitrary: obs s)
  case Nil
  then show ?case by (simp add: observed_def)
next
  case (Cons p passes)
  from Cons.prems(2) have p: "\<forall>c\<in>set (candidates p). validUrl (entry_key c)"
    and ps: "\<forall>c\<in>set (observed passes). validUrl (entry_key c)"
    by (simp_all add: observed_def)
  from Cons.IH [OF latest_focused_step [OF Cons.prems(1) p] ps]
  show ?case
    by (simp add: observed_def fst_run_Cons del: run.simps)
qed

text \<open>
  Claim C1, as the code has it. For a single discovery pass, from any state: the
  last-accepted timestamp never decreases; it changes only to the \<^verbatim>\<open>createdAt\<close> of a
  candidate of the pass that strictly exceeds it; and a pass all of whose candidates are
  no newer than the last-accepted timestamp changes nothing and performs no effect, so
  the focus is never moved to an older candidate that is reported again.
  For every sequence of discovery passes run from a manager with no focused vault and the
  initial timestamp 0, in which the key of every observed candidate gives a URL that the
  WebSocket constructor accepts: no observed candidate is newer than the last-accepted
  timestamp; if some observed candidate has \<^verbatim>\<open>createdAt > 0\<close>, the focused key is the
  key of an observed candidate whose \<^verbatim>\<open>createdAt\<close> is the last-accepted timestamp, hence
  the greatest observed; otherwise nothing is focused and the timestamp is still 0.
  (What a pass does with a candidate whose URL the constructor rejects is not part of
  this statement.)
\<close>

theorem focus_follows_newest_candidate:
  "lastVaultFoundTimestamp s \<le> lastVaultFoundTimestamp (fst (checkVaultKeyAndUpdateConnection validUrl p s)) \<and>
   (lastVaultFoundTimestamp (fst (checkVaultKeyAndUpdateConnection validUrl p s)) \<noteq> lastVaultFoundTimestamp s \<longrightarrow>
      (\<exists>c\<in>set (candidates p). lastVaultFoundTimestamp s < createdAt c \<and>
         lastVaultFoundTimestamp (fst (checkVaultKeyAndUpdateConnection validUrl p s)) = createdAt c)) \<and>
   ((\<forall>c\<in>set (candidates p). createdAt c \<le> lastVaultFoundTimestamp s) \<longrightarrow>
      checkVaultKeyAndUpdateConnection validUrl p s = (s, [])) \<and>
   (focusedVault s0 = None \<and> lastVaultFoundTimestamp s0 = 0 \<and>
    (\<forall>c\<in>set (observed passes). validUrl (entry_key c)) \<longrightarrow>
      (let s' = fst (run validUrl (map CheckVaultKey passes) s0); obs = observed passes
       in (\<forall>c\<in>set obs. createdAt c \<le> lastVaultFoundTimestamp s') \<and>
          (if \<exists>c\<in>set obs. 0 < createdAt c
           then \<exists>c\<in>set obs. createdAt c = lastVaultFoundTimestamp s' \<and>
                  focusedKey s' = Some (entry_key c)
           else focusedVault s' = None \<and> lastVaultFoundTimestamp s' = 0)))"
proof (intro conjI impI)
  show "lastVaultFoundTimestamp s \<le> lastVaultFoundTimestamp (fst (checkVaultKeyAndUpdateConnection validUrl p s))"
    using check_cases [of p s validUrl]
    by (auto simp: lastVaultFoundTimestamp_switchFocusedVault)
next
  assume "lastVaultFoundTimestamp (fst (checkVaultKeyAndUpdateConnection validUrl p s)) \<noteq> lastVaultFoundTimestamp s"
  then show "\<exists>c\<in>set (candidates p). lastVaultFoundTimestamp s < createdAt c \<and>
         lastVaultFoundTimestamp (fst (checkVaultKeyAndUpdateConnection validUrl p s)) = createdAt c"
    using check_cases [of p s validUrl]
    by (auto simp: lastVaultFoundTimestamp_switchFocusedVault)
next
  assume "\<forall>c\<in>set (candidates p). createdAt c \<le> lastVaultFoundTimestamp s"
  then show "checkVaultKeyAndUpdateConnection validUrl p s = (s, [])"
    using check_cases [of p s validUrl] by force
next
  assume a: "focusedVault s0 = None \<and> lastVaultFoundTimestamp s0 = 0 \<and>
    (\<forall>c\<in>set (observed passes). validUrl (entry_key c))"
  then have "latest_focused [] s0"
    by (simp add: latest_focused_def)
  moreover from a have "\<forall>c\<in>set (observed passes). validUrl (entry_key c)"
    by blast
  ultimately have "latest_focused ([] @ observed passes) (fst (run validUrl (map CheckVaultKey passes) s0))"
    by (rule latest_focused_run)
  then
  show "let s' = fst (run validUrl (map CheckVaultKey passes) s0); obs = observed passes
       in (\<forall>c\<in>set obs. createdAt c \<le> lastVaultFoundTimestamp s') \<and>
          (if \<exists>c\<in>set obs. 0 < createdAt c
           then \<exists>c\<in>set obs. createdAt c = lastVaultFoundTimestamp s' \<and>
                  focusedKey s' = Some (entry_key c)
           else focusedVault s' = None \<and> lastVaultFoundTimestamp s' = 0)"
    by (simp add: latest_focused_def Let_def)
qed

theorem focus_follows_newest_candidate_witness:
  "focusedKey (fst (run noFragment (map CheckVaultKey
      [Some [Some \<lparr>entry_key = ''a'', createdAt = 100\<rparr>, None, Some \<lparr>entry_key = ''b'', createdAt = 200\<rparr>],
       Some [Some \<lparr>entry_key = ''a'', createdAt = 100\<rparr>],
       None,
       Some [Some \<lparr>entry_key = ''c'', createdAt = 150\<rparr>]]) (init :: nat FocusedVaultManager))) = Some ''b'' \<and>
   lastVaultFoundTimestamp (fst (run noFragment (map CheckVaultKey
      [Some [Some \<lparr>entry_key = ''a'', createdAt = 100\<rparr>, None, Some \<lparr>entry_key = ''b'', createdAt = 200\<rparr>],
       Some [Some \<lparr>entry_key = ''a'', createdAt = 100\<rparr>],
       None,
       Some [Some \<lparr>entry_key = ''c'', createdAt = 150\<rparr>]]) (init :: nat FocusedVaultManager))) = 200"
proof -
  let ?passes = "[Some [Some \<lparr>entry_key = ''a'', createdAt = 100\<rparr>, None, Some \<lparr>entry_key = ''b'', createdAt = 200\<rparr>],
       Some [Some \<lparr>entry_key = ''a'', createdAt = 100\<rparr>],
       None,
       Some [Some \<lparr>entry_key = ''c'', createdAt = 150\<rparr>]]"
  let ?s' = "fst (run noFragment (map CheckVaultKey ?passes) (init :: nat FocusedVaultManager))"
  have obs: "observed ?passes =
      [\<lparr>entry_key = ''a'', createdAt = 100\<rparr>, \<lparr>entry_key = ''b'', createdAt = 200\<rparr>,
       \<lparr>entry_key = ''a'', createdAt = 100\<rparr>, \<lparr>entry_key = ''c'', createdAt = 150\<rparr>]"
    by (simp add: observed_def candidates_def List.map_filter_simps)
  have i: "focusedVault (init :: nat FocusedVaultManager) = None \<and>
      lastVaultFoundTimestamp (init :: nat FocusedVaultManager) = 0 \<and>
      (\<forall>c\<in>set (observed ?passes). noFragment (entry_key c))"
    unfolding obs by (simp add: init_def noFragment_def)
  from i focus_follows_newest_candidate [of _ noFragment _ init ?passes]
  have "(\<forall>c\<in>set (observed ?passes). createdAt c \<le> lastVaultFoundTimestamp ?s') \<and>
        (if \<exists>c\<in>set (observed ?passes). 0 < createdAt c
         then \<exists>c\<in>set (observed ?passes). createdAt c = lastVaultFoundTimestamp ?s' \<and>
                focusedKey ?s' = Some (entry_key c)
         else focusedVault ?s' = None \<and> lastVaultFoundTimestamp ?s' = 0)"
    unfolding Let_def by blast
  then show ?thesis
    unfolding obs by auto
qed

text \<open>
  The claim as the spec words it fails for a candidate whose \<^verbatim>\<open>createdAt\<close> does not exceed
  the initial timestamp 0: it is the newest candidate observed, and nothing is focused.
\<close>

theorem focus_follows_newest_candidate_counterexample:
  "observed [Some [Some \<lparr>entry_key = ''a'', createdAt = 0\<rparr>]] = [\<lparr>entry_key = ''a'', createdAt = 0\<rparr>] \<and>
   focusedKey (fst (run noFragment (map CheckVaultKey [Some [Some \<lparr>entry_key = ''a'', createdAt = 0\<rparr>]])
      (init :: nat FocusedVaultManager))) = None"
  by (simp add: handler_defs observed_def candidates_def)

lemma key_handlers:
  "key (fst (ws_on_message f v)) = key v"
  "key (fst (ws_on_close v)) = key v"
  "key (fst (sendPendingTraces v)) = key v"
  by (cases f; simp add: queueTracesForSending_def ws_on_close_def sendPendingTraces_def Let_def
      split: prod.splits)+

lemma onVault_keeps_focus:
  assumes "key (fst (h (heap s ! r))) = key (heap s ! r)"
  shows "focusedVault (fst (onVault r h s)) = focusedVault s \<and>
         lastVaultFoundTimestamp (fst (onVault r h s)) = lastVaultFoundTimestamp s \<and>
         focusedKey (fst (onVault r h s)) = focusedKey s"
  using assms
  by (auto simp: onVault_def focusedKey_def Let_def nth_list_update split: prod.splits option.splits)

lemma latest_focused_cong:
  "latest_focused obs s \<Longrightarrow> focusedVault s' = focusedVault s \<Longrightarrow>
   lastVaultFoundTimestamp s' = lastVaultFoundTimestamp s \<Longrightarrow> focusedKey s' = focusedKey s \<Longrightarrow>
   latest_focused obs s'"
  by (simp add: latest_focused_def)

lemma latest_focused_same_heap:
  "latest_focused obs s \<Longrightarrow> focusedVault s' = focusedVault s \<Longrightarrow>
   lastVaultFoundTimestamp s' = lastVaultFoundTimestamp s \<Longrightarrow> heap s' = heap s \<Longrightarrow>
   latest_focused obs s'"
proof -
  assume a: "latest_focused obs s" "focusedVault s' = focusedVault s"
    "lastVaultFoundTimestamp s' = lastVaultFoundTimestamp s" "heap s' = heap s"
  have "focusedKey s' = focusedKey s"
    unfolding focusedKey_def a(2) a(4) ..
  with a(1,2,3) show ?thesis
    by (rule latest_focused_cong)
qed

lemma latest_focused_event:
  assumes "latest_focused obs s" "\<not> refocuses e" "\<forall>c\<in>set (reported e). validUrl (entry_key c)"
  shows "latest_focused (obs @ reported e) (fst (step validUrl e s))"
proof (cases e)
  case (CheckVaultKey p)
  with assms(3) have "\<forall>c\<in>set (candidates p). validUrl (entry_key c)"
    by simp
  from latest_focused_step [OF assms(1) this] CheckVaultKey show ?thesis by simp
next
  case (WsMessage r f)
  with assms(1) onVault_keeps_focus [of "ws_on_message f" s r] show ?thesis
    by (simp add: key_handlers latest_focused_cong)
next
  case (WsClose r)
  with assms(1) onVault_keeps_focus [of ws_on_close s r] show ?thesis
    by (simp add: key_handlers latest_focused_cong)
next
  case (ThrottleTimer r)
  with assms(1) onVault_keeps_focus [of sendPendingTraces s r] show ?thesis
    by (simp add: key_handlers latest_focused_cong)
next
  case (ReconnectTimer k n)
  with assms(1) show ?thesis
    by (simp add: reconnectTimer_eq)
next
  case (SubscribeToFocusedVaultChange u l)
  with assms(1) show ?thesis
    by (simp add: subscribeToFocusedVaultChange_def latest_focused_same_heap)
next
  case (UnsubscribeFromFocusedVaultChange u)
  with assms(1) show ?thesis
    by (simp add: unsubscribeFromFocusedVaultChange_def latest_focused_same_heap)
next
  case (SubscribeToBatchTrace u l)
  with assms(1) show ?thesis
    by (simp add: subscribeToBatchTrace_def latest_focused_same_heap)
next
  case (UnsubscribeFromBatchTrace u)
  with assms(1) show ?thesis
    by (simp add: unsubscribeFromBatchTrace_def latest_focused_same_heap)
qed (use assms(2) in simp_all)

text \<open>
  A further property: the focus follows the newest candidate also when the discovery
  passes are interleaved with the other events of the event loop (subscriptions, frames, close events, throttle and
  reconnect timers), as long as nobody calls \<^verbatim>\<open>switchFocusedVault\<close>, \<^verbatim>\<open>dispose\<close> or
  \<^verbatim>\<open>startVaultKeyMonitoring\<close> from outside and the WebSocket constructor accepts the
  URL of every reported candidate: the focused key stays that of a newest candidate
  reported so far.
\<close>

theorem interleaved_events_keep_newest_focus:
  "focusedVault s0 = None \<and> lastVaultFoundTimestamp s0 = 0 \<and> (\<forall>e\<in>set es. \<not> refocuses e) \<and>
   (\<forall>c\<in>set (concat (map reported es)). validUrl (entry_key c)) \<longrightarrow>
   latest_focused (concat (map reported es)) (fst (run validUrl es s0))"
proof -
  have "latest_focused obs s \<Longrightarrow> \<forall>e\<in>set es. \<not> refocuses e \<Longrightarrow>
      \<forall>c\<in>set (concat (map reported es)). validUrl (entry_key c) \<Longrightarrow>
      latest_focused (obs @ concat (map reported es)) (fst (run validUrl es s))" for obs and s :: "'a FocusedVaultManager"
  proof (induction es arbitrary: obs s)
    case Nil
    then show ?case by simp
  next
    case (Cons e es)
    from Cons.prems have e: "\<not> refocuses e" and es: "\<forall>e\<in>set es. \<not> refocuses e"
      and v: "\<forall>c\<in>set (reported e). validUrl (entry_key c)"
      and vs: "\<forall>c\<in>set (concat (map reported es)). validUrl (entry_key c)"
      by simp_all
    from Cons.IH [OF latest_focused_event [OF Cons.prems(1) e v] es vs]
    show ?case
      by (simp add: fst_run_Cons del: run.simps)
  qed
  note run = this
  show ?thesis
  proof
    assume a: "focusedVault s0 = None \<and> lastVaultFoundTimestamp s0 = 0 \<and> (\<forall>e\<in>set es. \<not> refocuses e) \<and>
      (\<forall>c\<in>set (concat (map reported es)). validUrl (entry_key c))"
    then have "latest_focused [] s0"
      by (simp add: latest_focused_def)
    from run [OF this] a show "latest_focused (concat (map reported es)) (fst (run validUrl es s0))"
      by simp
  qed
qed

theorem interleaved_events_keep_newest_focus_witness:
  "focusedKey (fst (run noFragment
     [CheckVaultKey (Some [Some \<lparr>entry_key = ''a'', createdAt = 100\<rparr>]),
      WsMessage 0 (Batch [1]), WsClose 0, ReconnectTimer ''a'' 0,
      CheckVaultKey (Some [Some \<lparr>entry_key = ''b'', createdAt = 50\<rparr>])]
     (init :: nat FocusedVaultManager))) = Some ''a''"
proof -
  let ?es = "[CheckVaultKey (Some [Some \<lparr>entry_key = ''a'', createdAt = 100\<rparr>]),
      WsMessage 0 (Batch [1 :: nat]), WsClose 0, ReconnectTimer ''a'' 0,
      CheckVaultKey (Some [Some \<lparr>entry_key = ''b'', createdAt = 50\<rparr>])]"
  have obs: "concat (map reported ?es) =
      [\<lparr>entry_key = ''a'', createdAt = 100\<rparr>, \<lparr>entry_key = ''b'', createdAt = 50\<rparr>]"
    by (simp add: candidates_def List.map_filter_simps)
  have h: "focusedVault (init :: nat FocusedVaultManager) = None \<and>
      lastVaultFoundTimestamp (init :: nat FocusedVaultManager) = 0 \<and> (\<forall>e\<in>set ?es. \<not> refocuses e) \<and>
      (\<forall>c\<in>set (concat (map reported ?es)). noFragment (entry_key c))"
    unfolding obs by (simp add: init_def noFragment_def)
  from h interleaved_events_keep_newest_focus [of init ?es noFragment]
  have "latest_focused (concat (map reported ?es)) (fst (run noFragment ?es init))"
    by blast
  then show ?thesis
    unfolding obs latest_focused_def by auto
qed

text \<open>
  A further property: a newest candidate whose URL the WebSocket constructor rejects.
  The pass has advanced the last-accepted timestamp before \<^verbatim>\<open>switchFocusedVault\<close>
  runs; there the connection of the focused vault, if any, is closed and set to null, the
  constructor throws, the focus stays where it was and no subscriber is called. A later
  pass that reports the same candidate does nothing, since its \<^verbatim>\<open>createdAt\<close> no longer
  exceeds the timestamp.
\<close>

theorem rejected_candidate_is_never_focused:
  "sortByRecency (candidates p) = m # rest \<and> lastVaultFoundTimestamp s < createdAt m \<and>
   focusedKey s \<noteq> Some (entry_key m) \<and> \<not> validUrl (entry_key m) \<longrightarrow>
   (let s' = fst (checkVaultKeyAndUpdateConnection validUrl p s)
    in lastVaultFoundTimestamp s' = createdAt m \<and>
       focusedVault s' = focusedVault s \<and>
       snd (checkVaultKeyAndUpdateConnection validUrl p s) =
         (case focusedVault s of None \<Rightarrow> [] | Some r \<Rightarrow> closeConnection r s) @ [Throws SyntaxError] \<and>
       checkVaultKeyAndUpdateConnection validUrl p s' = (s', []))"
proof
  assume a: "sortByRecency (candidates p) = m # rest \<and> lastVaultFoundTimestamp s < createdAt m \<and>
   focusedKey s \<noteq> Some (entry_key m) \<and> \<not> validUrl (entry_key m)"
  then obtain results where p: "p = Some results"
    by (cases p) (simp_all add: candidates_def sortByRecency_def)
  with a have srt: "sortByRecency (List.map_filter id results) = m # rest"
    by (simp add: candidates_def)
  let ?s1 = "s\<lparr>lastVaultFoundTimestamp := createdAt m\<rparr>"
  have "focusedKey ?s1 = focusedKey s"
    by (simp add: focusedKey_def split: option.splits)
  with a have k: "focusedKey ?s1 \<noteq> Some (entry_key m)"
    by simp
  have c: "checkVaultKeyAndUpdateConnection validUrl p s = switchFocusedVault validUrl (entry_key m) 0 ?s1"
    using a by (simp add: checkVaultKeyAndUpdateConnection_def p srt)
  have sw: "lastVaultFoundTimestamp (fst (switchFocusedVault validUrl (entry_key m) 0 ?s1)) = createdAt m \<and>
      focusedVault (fst (switchFocusedVault validUrl (entry_key m) 0 ?s1)) = focusedVault s \<and>
      snd (switchFocusedVault validUrl (entry_key m) 0 ?s1) =
        (case focusedVault s of None \<Rightarrow> [] | Some r \<Rightarrow> closeConnection r s) @ [Throws SyntaxError]"
    using a k
    by (cases "focusedVault s")
       (simp_all add: switchFocusedVault_def new_FocusedVault_invalid closeConnection_def Let_def)
  have again: "checkVaultKeyAndUpdateConnection validUrl p (fst (switchFocusedVault validUrl (entry_key m) 0 ?s1)) =
      (fst (switchFocusedVault validUrl (entry_key m) 0 ?s1), [])"
    using sw by (simp add: checkVaultKeyAndUpdateConnection_def p srt)
  from sw again show "let s' = fst (checkVaultKeyAndUpdateConnection validUrl p s)
    in lastVaultFoundTimestamp s' = createdAt m \<and>
       focusedVault s' = focusedVault s \<and>
       snd (checkVaultKeyAndUpdateConnection validUrl p s) =
         (case focusedVault s of None \<Rightarrow> [] | Some r \<Rightarrow> closeConnection r s) @ [Throws SyntaxError] \<and>
       checkVaultKeyAndUpdateConnection validUrl p s' = (s', [])"
    unfolding c Let_def by blast
qed

theorem rejected_candidate_witness:
  "run noFragment
     [CheckVaultKey (Some [Some \<lparr>entry_key = ''a#b'', createdAt = 200\<rparr>]),
      CheckVaultKey (Some [Some \<lparr>entry_key = ''a#b'', createdAt = 200\<rparr>])]
     \<lparr>focusedVault = Some 0, lastVaultFoundTimestamp = 100, vaultKeyPollingInterval = None,
      focusedVaultSubscribers = [(''u1'', 1)], batchTraceSubscribers = [],
      heap = [exampleVault]\<rparr> =
   (\<lparr>focusedVault = Some 0, lastVaultFoundTimestamp = 200, vaultKeyPollingInterval = None,
     focusedVaultSubscribers = [(''u1'', 1)], batchTraceSubscribers = [],
     heap = [exampleVault\<lparr>wsConnection := None\<rparr>]\<rparr>,
    [Close_WebSocket 0, Throws SyntaxError])"
proof -
  let ?p = "Some [Some \<lparr>entry_key = ''a#b'', createdAt = 200\<rparr>]"
  let ?s = "\<lparr>focusedVault = Some 0, lastVaultFoundTimestamp = 100, vaultKeyPollingInterval = None,
      focusedVaultSubscribers = [(''u1'', 1)], batchTraceSubscribers = [],
      heap = [exampleVault]\<rparr>"
  have h: "sortByRecency (candidates ?p) = \<lparr>entry_key = ''a#b'', createdAt = 200\<rparr> # [] \<and>
      lastVaultFoundTimestamp ?s < createdAt \<lparr>entry_key = ''a#b'', createdAt = 200\<rparr> \<and>
      focusedKey ?s \<noteq> Some (entry_key \<lparr>entry_key = ''a#b'', createdAt = 200\<rparr>) \<and>
      \<not> noFragment (entry_key \<lparr>entry_key = ''a#b'', createdAt = 200\<rparr>)"
    by (simp add: candidates_def sortByRecency_def focusedKey_def exampleVault_def noFragment_def
        List.map_filter_simps)
  have 1: "step noFragment (CheckVaultKey ?p) ?s =
      (\<lparr>focusedVault = Some 0, lastVaultFoundTimestamp = 200, vaultKeyPollingInterval = None,
        focusedVaultSubscribers = [(''u1'', 1)], batchTraceSubscribers = [],
        heap = [exampleVault\<lparr>wsConnection := None\<rparr>]\<rparr>,
       [Close_WebSocket 0, Throws SyntaxError])"
    by (simp add: handler_defs)
  from h rejected_candidate_is_never_focused
    [of ?p "\<lparr>entry_key = ''a#b'', createdAt = 200\<rparr>" "[]" ?s noFragment]
  have "checkVaultKeyAndUpdateConnection noFragment ?p (fst (checkVaultKeyAndUpdateConnection noFragment ?p ?s)) =
      (fst (checkVaultKeyAndUpdateConnection noFragment ?p ?s), [])"
    unfolding Let_def by blast
  then have 2: "step noFragment (CheckVaultKey ?p) (fst (step noFragment (CheckVaultKey ?p) ?s)) =
      (fst (step noFragment (CheckVaultKey ?p) ?s), [])"
    by simp
  show ?thesis
    unfolding run.simps(2) [of noFragment "CheckVaultKey ?p"] Let_def
    using 1 2 by simp
qed

subsection \<open>Frames\<close>

text \<open>
  Claim C10. A frame on which \<^verbatim>\<open>JSON.parse\<close> throws leaves the vault object as it was
  (accumulated traces, pending buffer, throttle timer and the first-frame flag) and calls
  nothing; at the level of the manager the state is unchanged and no effect is performed.
  So any frame that follows is handled as if the undecodable one had never arrived: after
  an undecodable first frame, an array is still taken for the initial batch.
\<close>

theorem undecodable_frame_changes_nothing:
  "ws_on_message Unparseable v = (v, []) \<and>
   step validUrl (WsMessage r Unparseable) s = (s, []) \<and>
   ws_on_message f (fst (ws_on_message Unparseable v)) = ws_on_message f v \<and>
   (isFirst v \<longrightarrow>
      ws_on_message (Batch parsedData) (fst (ws_on_message Unparseable v)) =
        (v\<lparr>tracesData := parsedData, isFirst := False\<rparr>, sendTracesImmediately parsedData))"
  by (simp add: onVault_def)

theorem undecodable_frame_witness:
  "run noFragment [WsMessage 0 Unparseable, WsMessage 0 (Batch [5, 6])]
     (fst (run noFragment [SubscribeToBatchTrace ''u2'' 2, SwitchFocusedVault ''a'' 0] (init :: nat FocusedVaultManager))) =
   run noFragment [WsMessage 0 (Batch [5, 6])]
     (fst (run noFragment [SubscribeToBatchTrace ''u2'' 2, SwitchFocusedVault ''a'' 0] init)) \<and>
   ws_on_message (Batch [5, 6]) (fst (ws_on_message Unparseable exampleVault)) =
     (exampleVault\<lparr>tracesData := [5, 6], isFirst := False\<rparr>, [OnBatchTrace [5, 6]])"
proof -
  have f: "isFirst exampleVault"
    by (simp add: exampleVault_def)
  note inst = undecodable_frame_changes_nothing
    [of exampleVault noFragment 0
        "fst (run noFragment [SubscribeToBatchTrace ''u2'' 2, SwitchFocusedVault ''a'' 0] (init :: nat FocusedVaultManager))"
        "Batch [5, 6]" "[5, 6]"]
  from inst have 1: "step noFragment (WsMessage 0 Unparseable)
      (fst (run noFragment [SubscribeToBatchTrace ''u2'' 2, SwitchFocusedVault ''a'' 0] (init :: nat FocusedVaultManager))) =
      (fst (run noFragment [SubscribeToBatchTrace ''u2'' 2, SwitchFocusedVault ''a'' 0] init), [])"
    by blast
  from inst f have 2: "ws_on_message (Batch [5, 6]) (fst (ws_on_message Unparseable exampleVault)) =
     (exampleVault\<lparr>tracesData := [5, 6], isFirst := False\<rparr>, sendTracesImmediately [5, 6])"
    by blast
  have 3: "run noFragment [WsMessage 0 Unparseable, WsMessage 0 (Batch [5, 6])]
     (fst (run noFragment [SubscribeToBatchTrace ''u2'' 2, SwitchFocusedVault ''a'' 0] (init :: nat FocusedVaultManager))) =
   run noFragment [WsMessage 0 (Batch [5, 6])]
     (fst (run noFragment [SubscribeToBatchTrace ''u2'' 2, SwitchFocusedVault ''a'' 0] init))"
    using 1 by (rule run_Cons_noop)
  from 2 3 show ?thesis
    by (simp add: sendTracesImmediately_def)
qed

text \<open>
  Claim C2, as the code has it. When the first frame that the message handler decodes is
  an array, \<^verbatim>\<open>tracesData\<close> becomes exactly that array, the pending buffer and the
  throttle timer are untouched, and \<^verbatim>\<open>onBatchTrace\<close> is called once with the whole array
  if the array is not empty; for an empty array no callback is called. For a non-empty
  array every batch subscriber of the manager is called with it, in the order of the
  map. For the frames \<open>[t1, t2]\<close> and then \<open>t3\<close> on a fresh connection: the first frame
  calls \<^verbatim>\<open>onBatchTrace([t1, t2])\<close> at once, the second arms the throttle timer (800 ms)
  and calls nothing, and the timer calls \<^verbatim>\<open>onBatchTrace([t3])\<close>.
\<close>

theorem first_batch_is_backlog:
  "(isFirst v \<longrightarrow>
      ws_on_message (Batch parsedData) v =
        (v\<lparr>tracesData := parsedData, isFirst := False\<rparr>,
         if parsedData = [] then [] else [OnBatchTrace parsedData])) \<and>
   (r < length (heap s) \<and> isFirst (heap s ! r) \<and> parsedData \<noteq> [] \<longrightarrow>
      snd (step validUrl (WsMessage r (Batch parsedData)) s) =
        map (\<lambda>p. Call_batchTraceSubscriber (fst p) (snd p) parsedData) (batchTraceSubscribers s)) \<and>
   (isFirst v \<and> pendingTraces v = [] \<and> throttleTimeout v = None \<longrightarrow>
      (let (v1, as1) = ws_on_message (Batch [t1, t2]) v;
           (v2, as2) = ws_on_message (Single t3) v1;
           (v3, as3) = sendPendingTraces v2
       in as1 = [OnBatchTrace [t1, t2]] \<and>
          as2 = [SetTimeout_sendPendingTraces 800] \<and>
          as3 = [OnBatchTrace [t3]] \<and>
          v3 = v\<lparr>tracesData := [t1, t2, t3], isFirst := False\<rparr>))"
  by (auto simp: sendTracesImmediately_def onVault_def notifyBatchTraceSubscribers_def
      queueTracesForSending_def sendPendingTraces_def throttleInterval_def Let_def)

theorem first_batch_is_backlog_witness:
  "snd (run noFragment [WsMessage 0 (Batch [1, 2]), WsMessage 0 (Single 3), ThrottleTimer 0]
     (fst (run noFragment [SubscribeToBatchTrace ''u2'' 2, SwitchFocusedVault ''a'' 0] (init :: nat FocusedVaultManager)))) =
   [Call_batchTraceSubscriber ''u2'' 2 [1, 2], SetTimeout_throttle 0 800,
    Call_batchTraceSubscriber ''u2'' 2 [3]] \<and>
   snd (step noFragment (WsMessage 0 (Batch [1, 2]))
     (fst (run noFragment [SubscribeToBatchTrace ''u2'' 2, SwitchFocusedVault ''a'' 0] (init :: nat FocusedVaultManager)))) =
   [Call_batchTraceSubscriber ''u2'' 2 [1, 2]]"
proof -
  let ?s = "fst (run noFragment [SubscribeToBatchTrace ''u2'' 2, SwitchFocusedVault ''a'' 0] (init :: nat FocusedVaultManager))"
  have h: "0 < length (heap ?s) \<and> isFirst (heap ?s ! 0) \<and> [1, 2 :: nat] \<noteq> []"
    by (simp add: handler_defs)
  have b: "batchTraceSubscribers ?s = [(''u2'', 2)]"
    by (simp add: handler_defs)
  from h first_batch_is_backlog [of _ "[1, 2]" 0 ?s noFragment]
  have "snd (step noFragment (WsMessage 0 (Batch [1, 2])) ?s) =
      map (\<lambda>p. Call_batchTraceSubscriber (fst p) (snd p) [1, 2]) (batchTraceSubscribers ?s)"
    by blast
  then have 1: "snd (step noFragment (WsMessage 0 (Batch [1, 2])) ?s) = [Call_batchTraceSubscriber ''u2'' 2 [1, 2]]"
    unfolding b by simp
  have 2: "snd (run noFragment [WsMessage 0 (Batch [1, 2]), WsMessage 0 (Single 3), ThrottleTimer 0] ?s) =
      [Call_batchTraceSubscriber ''u2'' 2 [1, 2], SetTimeout_throttle 0 800,
       Call_batchTraceSubscriber ''u2'' 2 [3]]"
    by (simp add: handler_defs)
  from 1 2 show ?thesis
    by blast
qed

text \<open>
  The claim as the spec words it fails for an empty first array: it decodes as a sequence
  and is the first frame, and \<^verbatim>\<open>sendTracesImmediately\<close> calls nothing.
\<close>

theorem first_batch_is_backlog_counterexample:
  "new_FocusedVault noFragment ''a'' 0 = Inr exampleVault \<and>
   isFirst exampleVault \<and>
   snd (ws_on_message (Batch []) exampleVault) = [] \<and>
   snd (run noFragment [SubscribeToBatchTrace ''u2'' 2, SwitchFocusedVault ''a'' 0, WsMessage 0 (Batch [])]
     (init :: nat FocusedVaultManager)) = [New_WebSocket 0 ''a'']"
  by (simp add: handler_defs)

subsection \<open>The throttled batcher\<close>

lemma enqueueAll_armed:
  "throttleTimeout v \<noteq> None \<Longrightarrow>
   enqueueAll xss v = (v\<lparr>pendingTraces := pendingTraces v @ concat xss\<rparr>, [])"
  by (induction xss arbitrary: v) (auto simp: queueTracesForSending_def Let_def)

lemma enqueueAll_unarmed:
  "throttleTimeout v = None \<Longrightarrow> xss \<noteq> [] \<Longrightarrow>
   enqueueAll xss v =
     (v\<lparr>pendingTraces := pendingTraces v @ concat xss, throttleTimeout := Some Timeout\<rparr>,
      [SetTimeout_sendPendingTraces throttleInterval])"
  by (cases xss) (auto simp: queueTracesForSending_def Let_def enqueueAll_armed)

text \<open>
  Claim C3, as the code has it. Starting from an empty pending buffer and no armed timer,
  any number \<open>N \<ge> 1\<close> of \<^verbatim>\<open>queueTracesForSending\<close> calls arms the throttle timer exactly
  once (at the first call) and leaves the concatenation of the \<open>N\<close> arguments, in order
  of arrival, in the pending buffer. When the timer fires, \<^verbatim>\<open>onBatchTrace\<close> is called
  exactly once with that concatenation if it is not empty, and not at all if every
  argument was empty; the buffer is empty and the timer disarmed afterwards. With no call
  no timer is armed, and a timer that finds the buffer empty calls nothing.
\<close>

theorem one_flush_per_window:
  "(pendingTraces v = [] \<and> throttleTimeout v = None \<and> xss \<noteq> [] \<longrightarrow>
      enqueueAll xss v =
        (v\<lparr>pendingTraces := concat xss, throttleTimeout := Some Timeout\<rparr>,
         [SetTimeout_sendPendingTraces 800]) \<and>
      sendPendingTraces (fst (enqueueAll xss v)) =
        (v, if concat xss = [] then [] else [OnBatchTrace (concat xss)])) \<and>
   enqueueAll [] v = (v, []) \<and>
   (pendingTraces v = [] \<longrightarrow> snd (sendPendingTraces v) = [])"
  by (auto simp: enqueueAll_unarmed sendPendingTraces_def throttleInterval_def)

theorem one_flush_per_window_witness:
  "snd (enqueueAll [[1, 2], [], [3]] exampleVault) =
     [SetTimeout_sendPendingTraces 800] \<and>
   sendPendingTraces (fst (enqueueAll [[1, 2], [], [3]] exampleVault)) =
     (exampleVault, [OnBatchTrace [1, 2, 3]])"
proof -
  have h: "pendingTraces exampleVault = [] \<and>
      throttleTimeout exampleVault = None \<and>
      [[1, 2], [], [3 :: nat]] \<noteq> []"
    by (simp add: exampleVault_def)
  note inst = one_flush_per_window [of exampleVault "[[1, 2], [], [3]]"]
  from h inst
  have "enqueueAll [[1, 2], [], [3]] exampleVault =
        (exampleVault\<lparr>pendingTraces := concat [[1, 2], [], [3]], throttleTimeout := Some Timeout\<rparr>,
         [SetTimeout_sendPendingTraces 800])"
    by blast
  then have a: "snd (enqueueAll [[1, 2], [], [3]] exampleVault) =
        [SetTimeout_sendPendingTraces 800]"
    by (simp only: snd_conv)
  from h inst
  have "sendPendingTraces (fst (enqueueAll [[1, 2], [], [3]] exampleVault)) =
        (exampleVault,
         if concat [[1, 2], [], [3 :: nat]] = [] then [] else [OnBatchTrace (concat [[1, 2], [], [3]])])"
    by blast
  then have b: "sendPendingTraces (fst (enqueueAll [[1, 2], [], [3]] exampleVault)) =
        (exampleVault, [OnBatchTrace [1, 2, 3]])"
    by (simp del: enqueueAll.simps)
  from a b show ?thesis
    by (rule conjI)
qed

text \<open>
  The claim as the spec words it fails for a window whose calls all pass an empty
  sequence (as a later frame \<^verbatim>\<open>[]\<close> does): one call is made, the timer is armed, and
  when it fires no callback is called.
\<close>

theorem one_flush_per_window_counterexample:
  "new_FocusedVault noFragment ''a'' 0 = Inr exampleVault \<and>
   pendingTraces exampleVault = [] \<and>
   throttleTimeout exampleVault = None \<and>
   snd (enqueueAll [[]] exampleVault) =
     [SetTimeout_sendPendingTraces 800] \<and>
   snd (sendPendingTraces (fst (enqueueAll [[]] exampleVault))) = [] \<and>
   snd (run noFragment [SubscribeToBatchTrace ''u2'' 2, SwitchFocusedVault ''a'' 0, WsMessage 0 (Single 1),
             ThrottleTimer 0, WsMessage 0 (Batch []), ThrottleTimer 0]
     (init :: nat FocusedVaultManager)) =
     [New_WebSocket 0 ''a'', SetTimeout_throttle 0 800, Call_batchTraceSubscriber ''u2'' 2 [1],
      SetTimeout_throttle 0 800]"
  by (simp add: handler_defs)

subsection \<open>Events of a connection that was closed on purpose\<close>

lemma ws_on_message_wsConnection:
  "ws_on_message f (v\<lparr>wsConnection := w\<rparr>) =
     (case ws_on_message f v of (v', as) \<Rightarrow> (v'\<lparr>wsConnection := w\<rparr>, as))"
  by (cases f) (simp_all add: queueTracesForSending_def sendTracesImmediately_def Let_def)

lemma perform_wsConnection:
  "r < length (heap s) \<Longrightarrow>
   perform (s\<lparr>heap := (heap s)[r := (heap s ! r)\<lparr>wsConnection := w\<rparr>]\<rparr>) r a = perform s r a"
  by (cases a) (simp_all add: notifyBatchTraceSubscribers_def)

lemma message_ignores_wsConnection:
  assumes "r < length (heap s)"
  shows "step validUrl (WsMessage r f) (s\<lparr>heap := (heap s)[r := (heap s ! r)\<lparr>wsConnection := w\<rparr>]\<rparr>) =
     (case step validUrl (WsMessage r f) s of
        (s', es) \<Rightarrow> (s'\<lparr>heap := (heap s')[r := (heap s' ! r)\<lparr>wsConnection := w\<rparr>]\<rparr>, es))"
proof -
  obtain v' as where h: "ws_on_message f (heap s ! r) = (v', as)"
    by (cases "ws_on_message f (heap s ! r)")
  have p: "perform (s\<lparr>heap := (heap s)[r := v'\<lparr>wsConnection := w\<rparr>]\<rparr>) r a =
           perform (s\<lparr>heap := (heap s)[r := v']\<rparr>) r a" for a
    using assms perform_wsConnection [of r "s\<lparr>heap := (heap s)[r := v']\<rparr>" w a] by simp
  have pf: "perform (s\<lparr>heap := (heap s)[r := v'\<lparr>wsConnection := w\<rparr>]\<rparr>) r =
            perform (s\<lparr>heap := (heap s)[r := v']\<rparr>) r"
    by (rule ext) (rule p)
  show ?thesis
    using assms by (simp add: onVault_def ws_on_message_wsConnection h pf Let_def)
qed

lemma switchFocusedVault_closes:
  assumes "focusedVault s = Some r" "r < length (heap s)" "key (heap s ! r) \<noteq> k"
  shows "heap (fst (switchFocusedVault validUrl k n s)) ! r = (heap s ! r)\<lparr>wsConnection := None\<rparr> \<and>
         (wsConnection (heap s ! r) \<noteq> None \<longrightarrow>
            Close_WebSocket r \<in> set (snd (switchFocusedVault validUrl k n s)))"
  using assms
  by (auto simp: switchFocusedVault_def focusedKey_def closeConnection_def Let_def nth_append
      split: sum.splits)

text \<open>
  Claim C5, as the code has it. \<^verbatim>\<open>close()\<close> is called on the focused connection by
  \<^verbatim>\<open>switchFocusedVault\<close> (which also sets \<^verbatim>\<open>wsConnection\<close> to null) and by
  \<^verbatim>\<open>dispose\<close> (which clears the focus and leaves the store as it is); neither removes
  the handlers of the closed connection, and no handler tests whether its connection was
  closed. The handlers are stated for every state of the manager and every object \<open>r\<close> of
  the store, hence for every state that follows a \<^verbatim>\<open>close()\<close> of the connection of \<open>r\<close>,
  at any distance: a close event still runs \<^verbatim>\<open>onClose\<close>, which arms the reconnect timer
  for the key of \<open>r\<close>; a frame is still appended to \<^verbatim>\<open>tracesData\<close>, and every frame
  is handled as on an open connection: the handler never reads \<^verbatim>\<open>wsConnection\<close>, so
  the new state (but for that field) and the effects are the same whatever it holds.
  The armed timer, whenever it fires, leaves the manager unchanged and
  opens no socket: it performs no effect when the focused key differs from its key or
  nothing is focused, and it calls the focus-change subscribers when its key is the
  focused one (again).
\<close>

theorem deliberate_close_keeps_handlers:
  "(focusedVault s = Some r \<and> r < length (heap s) \<and> key (heap s ! r) \<noteq> k \<longrightarrow>
      heap (fst (switchFocusedVault validUrl k n s)) ! r = (heap s ! r)\<lparr>wsConnection := None\<rparr> \<and>
      (wsConnection (heap s ! r) \<noteq> None \<longrightarrow>
         Close_WebSocket r \<in> set (snd (switchFocusedVault validUrl k n s)))) \<and>
   (focusedVault s = Some r \<and> r < length (heap s) \<longrightarrow>
      heap (fst (dispose s)) = heap s \<and> focusedVault (fst (dispose s)) = None \<and>
      (wsConnection (heap s ! r) \<noteq> None \<longrightarrow> Close_WebSocket r \<in> set (snd (dispose s)))) \<and>
   (r < length (heap s) \<longrightarrow>
      step validUrl (WsClose r) s =
        (s\<lparr>heap := (heap s)[r := (heap s ! r)\<lparr>wsConnection := None\<rparr>]\<rparr>,
         [SetTimeout_reconnect (key (heap s ! r)) (retries (heap s ! r))
            (reconnectDelay (retries (heap s ! r)))])) \<and>
   (r < length (heap s) \<longrightarrow>
      tracesData (heap (fst (step validUrl (WsMessage r (Single t)) s)) ! r) =
        tracesData (heap s ! r) @ [t]) \<and>
   ws_on_message f (v\<lparr>wsConnection := w\<rparr>) =
     (case ws_on_message f v of (v', as) \<Rightarrow> (v'\<lparr>wsConnection := w\<rparr>, as)) \<and>
   (r < length (heap s) \<longrightarrow>
      step validUrl (WsMessage r f) (s\<lparr>heap := (heap s)[r := (heap s ! r)\<lparr>wsConnection := w\<rparr>]\<rparr>) =
        (case step validUrl (WsMessage r f) s of
           (s', es) \<Rightarrow> (s'\<lparr>heap := (heap s')[r := (heap s' ! r)\<lparr>wsConnection := w\<rparr>]\<rparr>, es))) \<and>
   step validUrl (ReconnectTimer k n) s =
     (s, if focusedKey s = Some k
         then map (\<lambda>p. Call_focusedVaultSubscriber (fst p) (snd p) (focusedVault s))
                (focusedVaultSubscribers s)
         else [])"
proof (intro conjI impI)
  assume a: "focusedVault s = Some r \<and> r < length (heap s) \<and> key (heap s ! r) \<noteq> k"
  then have "heap (fst (switchFocusedVault validUrl k n s)) ! r = (heap s ! r)\<lparr>wsConnection := None\<rparr> \<and>
      (wsConnection (heap s ! r) \<noteq> None \<longrightarrow>
         Close_WebSocket r \<in> set (snd (switchFocusedVault validUrl k n s)))"
    by (simp add: switchFocusedVault_closes)
  then show "heap (fst (switchFocusedVault validUrl k n s)) ! r = (heap s ! r)\<lparr>wsConnection := None\<rparr>"
    and "wsConnection (heap s ! r) \<noteq> None \<Longrightarrow>
         Close_WebSocket r \<in> set (snd (switchFocusedVault validUrl k n s))"
    by blast+
next
  assume a: "focusedVault s = Some r \<and> r < length (heap s)"
  show "heap (fst (dispose s)) = heap s"
    by (simp add: dispose_def Let_def)
  show "focusedVault (fst (dispose s)) = None"
    by (simp add: dispose_def Let_def)
  show "wsConnection (heap s ! r) \<noteq> None \<Longrightarrow> Close_WebSocket r \<in> set (snd (dispose s))"
    using a by (auto simp: dispose_def closeConnection_def Let_def)
next
  assume "r < length (heap s)"
  then show "step validUrl (WsClose r) s =
        (s\<lparr>heap := (heap s)[r := (heap s ! r)\<lparr>wsConnection := None\<rparr>]\<rparr>,
         [SetTimeout_reconnect (key (heap s ! r)) (retries (heap s ! r))
            (reconnectDelay (retries (heap s ! r)))])"
    by (simp add: onVault_ws_on_close)
next
  assume "r < length (heap s)"
  then show "tracesData (heap (fst (step validUrl (WsMessage r (Single t)) s)) ! r) =
        tracesData (heap s ! r) @ [t]"
    by (simp add: onVault_def queueTracesForSending_def Let_def split: prod.splits)
next
  show "ws_on_message f (v\<lparr>wsConnection := w\<rparr>) =
     (case ws_on_message f v of (v', as) \<Rightarrow> (v'\<lparr>wsConnection := w\<rparr>, as))"
    by (rule ws_on_message_wsConnection)
next
  assume "r < length (heap s)"
  then show "step validUrl (WsMessage r f) (s\<lparr>heap := (heap s)[r := (heap s ! r)\<lparr>wsConnection := w\<rparr>]\<rparr>) =
        (case step validUrl (WsMessage r f) s of
           (s', es) \<Rightarrow> (s'\<lparr>heap := (heap s')[r := (heap s' ! r)\<lparr>wsConnection := w\<rparr>]\<rparr>, es))"
    by (rule message_ignores_wsConnection)
next
  show "step validUrl (ReconnectTimer k n) s =
     (s, if focusedKey s = Some k
         then map (\<lambda>p. Call_focusedVaultSubscriber (fst p) (snd p) (focusedVault s))
                (focusedVaultSubscribers s)
         else [])"
    by (simp add: reconnectTimer_eq notifyFocusedVaultSubscribers_def)
qed

text \<open>
  The witness: the vault \<open>a\<close> is focused and a listener is subscribed; the focus moves to
  \<open>b\<close>, which closes the connection of \<open>a\<close>; the close event of that connection arms the
  timer for \<open>a\<close>; its timer does nothing while \<open>b\<close> is focused, and after the focus has
  moved back to \<open>a\<close> (a new object) it calls the listener and nothing else.
\<close>

theorem deliberate_close_keeps_handlers_witness:
  "snd (step noFragment (WsClose 0)
     (fst (switchFocusedVault noFragment ''b'' 0
        \<lparr>focusedVault = Some 0, lastVaultFoundTimestamp = 100, vaultKeyPollingInterval = None,
         focusedVaultSubscribers = [(''u1'', 1)], batchTraceSubscribers = [],
         heap = [exampleVault]\<rparr>))) =
   [SetTimeout_reconnect ''a'' 0 (Finite 102)] \<and>
   snd (step noFragment (ReconnectTimer ''a'' 0)
     (fst (run noFragment [SwitchFocusedVault ''b'' 0, WsClose 0]
        \<lparr>focusedVault = Some 0, lastVaultFoundTimestamp = 100, vaultKeyPollingInterval = None,
         focusedVaultSubscribers = [(''u1'', 1)], batchTraceSubscribers = [],
         heap = [exampleVault]\<rparr>))) = [] \<and>
   snd (step noFragment (ReconnectTimer ''a'' 0)
     (fst (run noFragment [SwitchFocusedVault ''b'' 0, WsClose 0, SwitchFocusedVault ''a'' 0]
        \<lparr>focusedVault = Some 0, lastVaultFoundTimestamp = 100, vaultKeyPollingInterval = None,
         focusedVaultSubscribers = [(''u1'', 1)], batchTraceSubscribers = [],
         heap = [exampleVault]\<rparr>))) = [Call_focusedVaultSubscriber ''u1'' 1 (Some 2)]"
proof -
  let ?s = "\<lparr>focusedVault = Some 0, lastVaultFoundTimestamp = 100, vaultKeyPollingInterval = None,
         focusedVaultSubscribers = [(''u1'', 1)], batchTraceSubscribers = [],
         heap = [exampleVault]\<rparr> :: nat FocusedVaultManager"
  let ?b = "fst (switchFocusedVault noFragment ''b'' 0 ?s)"
  let ?c = "fst (run noFragment [SwitchFocusedVault ''b'' 0, WsClose 0] ?s)"
  let ?d = "fst (run noFragment [SwitchFocusedVault ''b'' 0, WsClose 0, SwitchFocusedVault ''a'' 0] ?s)"
  have h: "focusedVault ?s = Some 0 \<and> 0 < length (heap ?s) \<and> key (heap ?s ! 0) \<noteq> ''b''"
    by (simp add: exampleVault_def)
  from h deliberate_close_keeps_handlers [of ?s 0 "''b''" noFragment 0]
  have closed: "heap ?b ! 0 = (heap ?s ! 0)\<lparr>wsConnection := None\<rparr>"
    by blast
  have len: "0 < length (heap ?b)"
    by (simp add: handler_defs)
  from len deliberate_close_keeps_handlers [of ?b 0 _ noFragment]
  have "step noFragment (WsClose 0) ?b =
      (?b\<lparr>heap := (heap ?b)[0 := (heap ?b ! 0)\<lparr>wsConnection := None\<rparr>]\<rparr>,
       [SetTimeout_reconnect (key (heap ?b ! 0)) (retries (heap ?b ! 0))
          (reconnectDelay (retries (heap ?b ! 0)))])"
    by blast
  then have 1: "snd (step noFragment (WsClose 0) ?b) = [SetTimeout_reconnect ''a'' 0 (Finite 102)]"
    unfolding closed by (simp add: exampleVault_def reconnectDelay_def ulp_def roundTiesToEven_def)
  have kc: "focusedKey ?c = Some ''b''" and fc: "focusedVaultSubscribers ?c = [(''u1'', 1)]"
    by (simp_all add: handler_defs)
  have kd: "focusedKey ?d = Some ''a''" and fd: "focusedVaultSubscribers ?d = [(''u1'', 1)]"
    and vd: "focusedVault ?d = Some 2"
    by (simp_all add: handler_defs)
  from deliberate_close_keeps_handlers [of ?c _ "''a''" noFragment 0]
  have "step noFragment (ReconnectTimer ''a'' 0) ?c =
     (?c, if focusedKey ?c = Some ''a''
         then map (\<lambda>p. Call_focusedVaultSubscriber (fst p) (snd p) (focusedVault ?c))
                (focusedVaultSubscribers ?c)
         else [])"
    by blast
  then have 2: "snd (step noFragment (ReconnectTimer ''a'' 0) ?c) = []"
    unfolding kc by simp
  from deliberate_close_keeps_handlers [of ?d _ "''a''" noFragment 0]
  have "step noFragment (ReconnectTimer ''a'' 0) ?d =
     (?d, if focusedKey ?d = Some ''a''
         then map (\<lambda>p. Call_focusedVaultSubscriber (fst p) (snd p) (focusedVault ?d))
                (focusedVaultSubscribers ?d)
         else [])"
    by blast
  then have 3: "snd (step noFragment (ReconnectTimer ''a'' 0) ?d) =
      [Call_focusedVaultSubscriber ''u1'' 1 (Some 2)]"
    unfolding kd fd vd by simp
  from 1 2 3 show ?thesis
    by blast
qed

text \<open>
  The claim as the spec words it fails: after the switch from the vault \<open>a\<close> to the
  vault \<open>b\<close> has called \<^verbatim>\<open>close()\<close> on the connection of \<open>a\<close>, the close event of
  that connection runs the closure callback and arms a reconnect timer for \<open>a\<close>.
\<close>

theorem deliberate_close_keeps_handlers_counterexample:
  "snd (run noFragment [SwitchFocusedVault ''a'' 0, SwitchFocusedVault ''b'' 0, WsClose 0]
     (init :: nat FocusedVaultManager)) =
   [New_WebSocket 0 ''a'', Close_WebSocket 0, New_WebSocket 1 ''b'',
    SetTimeout_reconnect ''a'' 0 (Finite 102)]"
  by (simp add: handler_defs)

subsection \<open>Unsubscribing\<close>

lemma Map_set_Map_delete:
  "u' \<noteq> u \<Longrightarrow> Map_set u' l (Map_delete u m) = Map_delete u (Map_set u' l m)"
  by (induction m) (auto simp: Map_delete_def)

lemma Map_delete_commute:
  "Map_delete u' (Map_delete u m) = Map_delete u (Map_delete u' m)"
  by (induction m) (auto simp: Map_delete_def)

lemma focusedKey_unsubscribeFocus: "focusedKey (unsubscribeFromFocusedVaultChange u s) = focusedKey s"
  by (simp add: focusedKey_def unsubscribeFromFocusedVaultChange_def split: option.splits)

lemma notify_unsubscribeFocus:
  "notifyFocusedVaultSubscribers (unsubscribeFromFocusedVaultChange u s) =
   filter (\<lambda>x. \<not> calls_focusedVaultSubscriber u x) (notifyFocusedVaultSubscribers s)"
  by (simp add: notifyFocusedVaultSubscribers_def unsubscribeFromFocusedVaultChange_def
      Map_delete_def filter_map comp_def)

lemma filter_closeConnection:
  "filter (\<lambda>x. \<not> calls_focusedVaultSubscriber u x) (closeConnection r s) = closeConnection r s"
  by (simp add: closeConnection_def split: option.splits)

lemma switchFocusedVault_unsubscribeFocus:
  "switchFocusedVault validUrl k n (unsubscribeFromFocusedVaultChange u s) =
   (unsubscribeFromFocusedVaultChange u (fst (switchFocusedVault validUrl k n s)),
    filter (\<lambda>x. \<not> calls_focusedVaultSubscriber u x) (snd (switchFocusedVault validUrl k n s)))"
  by (cases "focusedVault s")
     (simp_all add: switchFocusedVault_def focusedKey_def unsubscribeFromFocusedVaultChange_def
      notifyFocusedVaultSubscribers_def closeConnection_def Map_delete_def filter_map comp_def Let_def
      split: option.splits sum.splits)

lemma dispose_unsubscribeFocus:
  "dispose (unsubscribeFromFocusedVaultChange u s) =
   (unsubscribeFromFocusedVaultChange u (fst (dispose s)), filter (\<lambda>x. \<not> calls_focusedVaultSubscriber u x) (snd (dispose s)))"
  by (simp add: dispose_def unsubscribeFromFocusedVaultChange_def closeConnection_def Let_def
      split: option.splits)

lemma startVaultKeyMonitoring_unsubscribeFocus:
  "startVaultKeyMonitoring (unsubscribeFromFocusedVaultChange u s) =
   (unsubscribeFromFocusedVaultChange u (fst (startVaultKeyMonitoring s)),
    filter (\<lambda>x. \<not> calls_focusedVaultSubscriber u x) (snd (startVaultKeyMonitoring s)))"
  by (simp add: startVaultKeyMonitoring_def dispose_unsubscribeFocus split: prod.splits)
     (simp add: unsubscribeFromFocusedVaultChange_def)

lemma check_unsubscribeFocus:
  "checkVaultKeyAndUpdateConnection validUrl p (unsubscribeFromFocusedVaultChange u s) =
   (unsubscribeFromFocusedVaultChange u (fst (checkVaultKeyAndUpdateConnection validUrl p s)),
    filter (\<lambda>x. \<not> calls_focusedVaultSubscriber u x) (snd (checkVaultKeyAndUpdateConnection validUrl p s)))"
proof -
  have l: "lastVaultFoundTimestamp (unsubscribeFromFocusedVaultChange u s) = lastVaultFoundTimestamp s"
    by (simp add: unsubscribeFromFocusedVaultChange_def)
  have c: "\<And>t. (unsubscribeFromFocusedVaultChange u s)\<lparr>lastVaultFoundTimestamp := t\<rparr> = unsubscribeFromFocusedVaultChange u (s\<lparr>lastVaultFoundTimestamp := t\<rparr>)"
    by (simp add: unsubscribeFromFocusedVaultChange_def)
  show ?thesis
    by (simp add: checkVaultKeyAndUpdateConnection_def l c switchFocusedVault_unsubscribeFocus
        split: option.splits list.splits)
qed

lemma perform_unsubscribeFocus:
  "perform (unsubscribeFromFocusedVaultChange u s) r a = perform s r a \<and>
   filter (\<lambda>x. \<not> calls_focusedVaultSubscriber u x) (perform s r a) = perform s r a"
  by (cases a) (simp_all add: notifyBatchTraceSubscribers_def unsubscribeFromFocusedVaultChange_def
      filter_map comp_def)

lemma performs_unsubscribeFocus:
  "concat (map (perform (unsubscribeFromFocusedVaultChange u s) r) as) = concat (map (perform s r) as) \<and>
   filter (\<lambda>x. \<not> calls_focusedVaultSubscriber u x) (concat (map (perform s r) as)) =
     concat (map (perform s r) as)"
  by (induction as) (simp_all add: perform_unsubscribeFocus)

lemma onVault_unsubscribeFocus:
  "onVault r h (unsubscribeFromFocusedVaultChange u s) =
   (unsubscribeFromFocusedVaultChange u (fst (onVault r h s)),
    filter (\<lambda>x. \<not> calls_focusedVaultSubscriber u x) (snd (onVault r h s)))"
proof -
  have h: "heap (unsubscribeFromFocusedVaultChange u s) = heap s"
    by (simp add: unsubscribeFromFocusedVaultChange_def)
  have c: "\<And>hp. (unsubscribeFromFocusedVaultChange u s)\<lparr>heap := hp\<rparr> = unsubscribeFromFocusedVaultChange u (s\<lparr>heap := hp\<rparr>)"
    by (simp add: unsubscribeFromFocusedVaultChange_def)
  show ?thesis
    by (simp add: onVault_def h c performs_unsubscribeFocus Let_def split: prod.splits)
qed

lemma reconnectTimer_unsubscribeFocus:
  "reconnectTimer validUrl k n (unsubscribeFromFocusedVaultChange u s) =
   (unsubscribeFromFocusedVaultChange u (fst (reconnectTimer validUrl k n s)),
    filter (\<lambda>x. \<not> calls_focusedVaultSubscriber u x) (snd (reconnectTimer validUrl k n s)))"
  by (simp add: reconnectTimer_def focusedKey_unsubscribeFocus switchFocusedVault_unsubscribeFocus)

lemma step_unsubscribeFocus:
  "\<not> reuses_focus_uuid u e \<Longrightarrow>
   step validUrl e (unsubscribeFromFocusedVaultChange u s) =
   (unsubscribeFromFocusedVaultChange u (fst (step validUrl e s)), filter (\<lambda>x. \<not> calls_focusedVaultSubscriber u x) (snd (step validUrl e s)))"
proof (cases e)
  case (SubscribeToFocusedVaultChange u' l)
  assume "\<not> reuses_focus_uuid u e"
  with SubscribeToFocusedVaultChange have "u' \<noteq> u" by simp
  with SubscribeToFocusedVaultChange show ?thesis
    by (simp add: subscribeToFocusedVaultChange_def unsubscribeFromFocusedVaultChange_def
        Map_set_Map_delete)
next
  case (UnsubscribeFromFocusedVaultChange u')
  then show ?thesis
    by (simp add: unsubscribeFromFocusedVaultChange_def Map_delete_commute)
next
  case (SubscribeToBatchTrace u' l)
  then show ?thesis
    by (simp add: subscribeToBatchTrace_def unsubscribeFromFocusedVaultChange_def)
next
  case (UnsubscribeFromBatchTrace u')
  then show ?thesis
    by (simp add: unsubscribeFromBatchTrace_def unsubscribeFromFocusedVaultChange_def)
qed (simp_all add: startVaultKeyMonitoring_unsubscribeFocus dispose_unsubscribeFocus check_unsubscribeFocus switchFocusedVault_unsubscribeFocus
      onVault_unsubscribeFocus reconnectTimer_unsubscribeFocus)

lemma run_unsubscribeFocus:
  "\<forall>e\<in>set es. \<not> reuses_focus_uuid u e \<Longrightarrow>
   run validUrl es (unsubscribeFromFocusedVaultChange u s) =
   (unsubscribeFromFocusedVaultChange u (fst (run validUrl es s)), filter (\<lambda>x. \<not> calls_focusedVaultSubscriber u x) (snd (run validUrl es s)))"
proof (induction es arbitrary: s)
  case Nil
  show ?case by simp
next
  case (Cons e es)
  then have e: "\<not> reuses_focus_uuid u e" and es: "\<forall>e\<in>set es. \<not> reuses_focus_uuid u e"
    by simp_all
  show ?case
    by (simp add: step_unsubscribeFocus [OF e] Cons.IH [OF es] Let_def split: prod.splits)
qed


lemma focusedKey_unsubscribeBatch: "focusedKey (unsubscribeFromBatchTrace u s) = focusedKey s"
  by (simp add: focusedKey_def unsubscribeFromBatchTrace_def split: option.splits)

lemma switchFocusedVault_unsubscribeBatch:
  "switchFocusedVault validUrl k n (unsubscribeFromBatchTrace u s) =
   (unsubscribeFromBatchTrace u (fst (switchFocusedVault validUrl k n s)),
    filter (\<lambda>x. \<not> calls_batchTraceSubscriber u x) (snd (switchFocusedVault validUrl k n s)))"
  by (cases "focusedVault s")
     (simp_all add: switchFocusedVault_def focusedKey_def unsubscribeFromBatchTrace_def
      notifyFocusedVaultSubscribers_def closeConnection_def filter_map comp_def Let_def
      split: option.splits sum.splits)

lemma dispose_unsubscribeBatch:
  "dispose (unsubscribeFromBatchTrace u s) =
   (unsubscribeFromBatchTrace u (fst (dispose s)), filter (\<lambda>x. \<not> calls_batchTraceSubscriber u x) (snd (dispose s)))"
  by (simp add: dispose_def unsubscribeFromBatchTrace_def closeConnection_def Let_def
      split: option.splits)

lemma startVaultKeyMonitoring_unsubscribeBatch:
  "startVaultKeyMonitoring (unsubscribeFromBatchTrace u s) =
   (unsubscribeFromBatchTrace u (fst (startVaultKeyMonitoring s)),
    filter (\<lambda>x. \<not> calls_batchTraceSubscriber u x) (snd (startVaultKeyMonitoring s)))"
  by (simp add: startVaultKeyMonitoring_def dispose_unsubscribeBatch split: prod.splits)
     (simp add: unsubscribeFromBatchTrace_def)

lemma check_unsubscribeBatch:
  "checkVaultKeyAndUpdateConnection validUrl p (unsubscribeFromBatchTrace u s) =
   (unsubscribeFromBatchTrace u (fst (checkVaultKeyAndUpdateConnection validUrl p s)),
    filter (\<lambda>x. \<not> calls_batchTraceSubscriber u x) (snd (checkVaultKeyAndUpdateConnection validUrl p s)))"
proof -
  have l: "lastVaultFoundTimestamp (unsubscribeFromBatchTrace u s) = lastVaultFoundTimestamp s"
    by (simp add: unsubscribeFromBatchTrace_def)
  have c: "\<And>t. (unsubscribeFromBatchTrace u s)\<lparr>lastVaultFoundTimestamp := t\<rparr> = unsubscribeFromBatchTrace u (s\<lparr>lastVaultFoundTimestamp := t\<rparr>)"
    by (simp add: unsubscribeFromBatchTrace_def)
  show ?thesis
    by (simp add: checkVaultKeyAndUpdateConnection_def l c switchFocusedVault_unsubscribeBatch
        split: option.splits list.splits)
qed

lemma perform_unsubscribeBatch:
  "perform (unsubscribeFromBatchTrace u s) r a = filter (\<lambda>x. \<not> calls_batchTraceSubscriber u x) (perform s r a)"
  by (cases a) (simp_all add: notifyBatchTraceSubscribers_def unsubscribeFromBatchTrace_def
      Map_delete_def filter_map comp_def)

lemma performs_unsubscribeBatch:
  "concat (map (perform (unsubscribeFromBatchTrace u s) r) as) =
   filter (\<lambda>x. \<not> calls_batchTraceSubscriber u x) (concat (map (perform s r) as))"
  by (induction as) (simp_all add: perform_unsubscribeBatch)

lemma onVault_unsubscribeBatch:
  "onVault r h (unsubscribeFromBatchTrace u s) =
   (unsubscribeFromBatchTrace u (fst (onVault r h s)),
    filter (\<lambda>x. \<not> calls_batchTraceSubscriber u x) (snd (onVault r h s)))"
proof -
  have h: "heap (unsubscribeFromBatchTrace u s) = heap s"
    by (simp add: unsubscribeFromBatchTrace_def)
  have c: "\<And>hp. (unsubscribeFromBatchTrace u s)\<lparr>heap := hp\<rparr> = unsubscribeFromBatchTrace u (s\<lparr>heap := hp\<rparr>)"
    by (simp add: unsubscribeFromBatchTrace_def)
  show ?thesis
    by (simp add: onVault_def h c performs_unsubscribeBatch Let_def split: prod.splits)
qed

lemma reconnectTimer_unsubscribeBatch:
  "reconnectTimer validUrl k n (unsubscribeFromBatchTrace u s) =
   (unsubscribeFromBatchTrace u (fst (reconnectTimer validUrl k n s)),
    filter (\<lambda>x. \<not> calls_batchTraceSubscriber u x) (snd (reconnectTimer validUrl k n s)))"
  by (simp add: reconnectTimer_def focusedKey_unsubscribeBatch switchFocusedVault_unsubscribeBatch)

lemma step_unsubscribeBatch:
  "\<not> reuses_batch_uuid u e \<Longrightarrow>
   step validUrl e (unsubscribeFromBatchTrace u s) =
   (unsubscribeFromBatchTrace u (fst (step validUrl e s)), filter (\<lambda>x. \<not> calls_batchTraceSubscriber u x) (snd (step validUrl e s)))"
proof (cases e)
  case (SubscribeToBatchTrace u' l)
  assume "\<not> reuses_batch_uuid u e"
  with SubscribeToBatchTrace have "u' \<noteq> u" by simp
  with SubscribeToBatchTrace show ?thesis
    by (simp add: subscribeToBatchTrace_def unsubscribeFromBatchTrace_def Map_set_Map_delete)
next
  case (UnsubscribeFromBatchTrace u')
  then show ?thesis
    by (simp add: unsubscribeFromBatchTrace_def Map_delete_commute)
next
  case (SubscribeToFocusedVaultChange u' l)
  then show ?thesis
    by (simp add: subscribeToFocusedVaultChange_def unsubscribeFromBatchTrace_def)
next
  case (UnsubscribeFromFocusedVaultChange u')
  then show ?thesis
    by (simp add: unsubscribeFromBatchTrace_def unsubscribeFromFocusedVaultChange_def)
qed (simp_all add: startVaultKeyMonitoring_unsubscribeBatch dispose_unsubscribeBatch check_unsubscribeBatch switchFocusedVault_unsubscribeBatch
      onVault_unsubscribeBatch reconnectTimer_unsubscribeBatch)

lemma run_unsubscribeBatch:
  "\<forall>e\<in>set es. \<not> reuses_batch_uuid u e \<Longrightarrow>
   run validUrl es (unsubscribeFromBatchTrace u s) =
   (unsubscribeFromBatchTrace u (fst (run validUrl es s)), filter (\<lambda>x. \<not> calls_batchTraceSubscriber u x) (snd (run validUrl es s)))"
proof (induction es arbitrary: s)
  case Nil
  show ?case by simp
next
  case (Cons e es)
  then have e: "\<not> reuses_batch_uuid u e" and es: "\<forall>e\<in>set es. \<not> reuses_batch_uuid u e"
    by simp_all
  show ?case
    by (simp add: step_unsubscribeBatch [OF e] Cons.IH [OF es] Let_def split: prod.splits)
qed

text \<open>
  Claim C9. Let \<open>u\<close> be the key under which a listener was registered in the focus-change
  map, and let the function returned by the subscription have run. Then, for every
  sequence of events that follows in which \<^verbatim>\<open>crypto.randomUUID()\<close> does not return \<open>u\<close>
  for a new focus-change subscription, no effect is a call of the focus-change subscriber
  \<open>u\<close>; and the effects are exactly those of the same events without the unsubscription,
  less the calls of \<open>u\<close>: every other listener of either map is called as before, with
  the same arguments and in the same order. The same holds for the batch-trace map.
\<close>

theorem unsubscribed_listener_is_never_called:
  "((\<forall>e\<in>set es. \<not> reuses_focus_uuid u e) \<longrightarrow>
      (\<forall>x\<in>set (snd (run validUrl es (unsubscribeFromFocusedVaultChange u s))).
         \<not> calls_focusedVaultSubscriber u x) \<and>
      snd (run validUrl es (unsubscribeFromFocusedVaultChange u s)) =
        filter (\<lambda>x. \<not> calls_focusedVaultSubscriber u x) (snd (run validUrl es s))) \<and>
   ((\<forall>e\<in>set es. \<not> reuses_batch_uuid u e) \<longrightarrow>
      (\<forall>x\<in>set (snd (run validUrl es (unsubscribeFromBatchTrace u s))).
         \<not> calls_batchTraceSubscriber u x) \<and>
      snd (run validUrl es (unsubscribeFromBatchTrace u s)) =
        filter (\<lambda>x. \<not> calls_batchTraceSubscriber u x) (snd (run validUrl es s)))"
  by (simp add: run_unsubscribeFocus run_unsubscribeBatch)

theorem unsubscribed_listener_witness:
  "snd (run noFragment [SwitchFocusedVault ''a'' 0, WsMessage 0 (Batch [1])]
     (unsubscribeFromFocusedVaultChange ''u1''
       (fst (run noFragment [SubscribeToFocusedVaultChange ''u1'' 1, SubscribeToFocusedVaultChange ''u3'' 3,
                  SubscribeToBatchTrace ''u2'' 2, SubscribeToBatchTrace ''u4'' 4]
          (init :: nat FocusedVaultManager))))) =
   [New_WebSocket 0 ''a'', Call_focusedVaultSubscriber ''u3'' 3 (Some 0),
    Call_batchTraceSubscriber ''u2'' 2 [1], Call_batchTraceSubscriber ''u4'' 4 [1]] \<and>
   snd (run noFragment [SwitchFocusedVault ''a'' 0, WsMessage 0 (Batch [1])]
     (unsubscribeFromBatchTrace ''u2''
       (fst (run noFragment [SubscribeToFocusedVaultChange ''u1'' 1, SubscribeToFocusedVaultChange ''u3'' 3,
                  SubscribeToBatchTrace ''u2'' 2, SubscribeToBatchTrace ''u4'' 4]
          (init :: nat FocusedVaultManager))))) =
   [New_WebSocket 0 ''a'', Call_focusedVaultSubscriber ''u1'' 1 (Some 0),
    Call_focusedVaultSubscriber ''u3'' 3 (Some 0), Call_batchTraceSubscriber ''u4'' 4 [1]]"
proof -
  let ?s = "fst (run noFragment [SubscribeToFocusedVaultChange ''u1'' 1, SubscribeToFocusedVaultChange ''u3'' 3,
                  SubscribeToBatchTrace ''u2'' 2, SubscribeToBatchTrace ''u4'' 4]
          (init :: nat FocusedVaultManager))"
  let ?es = "[SwitchFocusedVault ''a'' 0, WsMessage 0 (Batch [1 :: nat])]"
  have all: "snd (run noFragment ?es ?s) =
      [New_WebSocket 0 ''a'', Call_focusedVaultSubscriber ''u1'' 1 (Some 0),
       Call_focusedVaultSubscriber ''u3'' 3 (Some 0),
       Call_batchTraceSubscriber ''u2'' 2 [1], Call_batchTraceSubscriber ''u4'' 4 [1]]"
    by (simp add: handler_defs)
  have f: "\<forall>e\<in>set ?es. \<not> reuses_focus_uuid ''u1'' e"
    by simp
  have b: "\<forall>e\<in>set ?es. \<not> reuses_batch_uuid ''u2'' e"
    by simp
  from f unsubscribed_listener_is_never_called [of ?es "''u1''" noFragment ?s]
  have "snd (run noFragment ?es (unsubscribeFromFocusedVaultChange ''u1'' ?s)) =
      filter (\<lambda>x. \<not> calls_focusedVaultSubscriber ''u1'' x) (snd (run noFragment ?es ?s))"
    by blast
  then have 1: "snd (run noFragment ?es (unsubscribeFromFocusedVaultChange ''u1'' ?s)) =
      [New_WebSocket 0 ''a'', Call_focusedVaultSubscriber ''u3'' 3 (Some 0),
       Call_batchTraceSubscriber ''u2'' 2 [1], Call_batchTraceSubscriber ''u4'' 4 [1]]"
    unfolding all by simp
  from b unsubscribed_listener_is_never_called [of ?es "''u2''" noFragment ?s]
  have "snd (run noFragment ?es (unsubscribeFromBatchTrace ''u2'' ?s)) =
      filter (\<lambda>x. \<not> calls_batchTraceSubscriber ''u2'' x) (snd (run noFragment ?es ?s))"
    by blast
  then have 2: "snd (run noFragment ?es (unsubscribeFromBatchTrace ''u2'' ?s)) =
      [New_WebSocket 0 ''a'', Call_focusedVaultSubscriber ''u1'' 1 (Some 0),
       Call_focusedVaultSubscriber ''u3'' 3 (Some 0), Call_batchTraceSubscriber ''u4'' 4 [1]]"
    unfolding all by simp
  from 1 2 show ?thesis
    by blast
qed


end
